theory Spec2Isabelle
  imports Main "HOL-Library.Word" "HOL-Library.Monad_Syntax" "HOL-Library.Sublist"
    "HOL-Library.Multiset"
begin

section \<open>JavaScript strings\<close>

text \<open>
  A JavaScript string is a sequence of UTF-16 code units. All the string operations the
  two scripts use (\<^verbatim>\<open>replace\<close>, \<^verbatim>\<open>split\<close>, \<^verbatim>\<open>substring\<close>, \<^verbatim>\<open>trim\<close>,
  \<^verbatim>\<open>padStart\<close>, regular expressions without the \<^verbatim>\<open>u\<close> flag) work on code units.
\<close>

type_synonym jschar = "16 word"
type_synonym jsstring = "jschar list"

definition js :: "string \<Rightarrow> jsstring" where
  "js s = map of_char s"

definition hyphen :: jschar where
  "hyphen = 0x2D"

subsection \<open>Character classes of the regular expressions\<close>

definition isDigit :: "jschar \<Rightarrow> bool" where
  "isDigit c = (0x30 \<le> c \<and> c \<le> 0x39)"

definition isUpperAscii :: "jschar \<Rightarrow> bool" where
  "isUpperAscii c = (0x41 \<le> c \<and> c \<le> 0x5A)"

definition isLowerAscii :: "jschar \<Rightarrow> bool" where
  "isLowerAscii c = (0x61 \<le> c \<and> c \<le> 0x7A)"

text \<open>\<^verbatim>\<open>\w\<close> without the \<^verbatim>\<open>u\<close> and \<^verbatim>\<open>i\<close> flags: \<^verbatim>\<open>[A-Za-z0-9_]\<close>.\<close>

definition isWordChar :: "jschar \<Rightarrow> bool" where
  "isWordChar c = (isLowerAscii c \<or> isUpperAscii c \<or> isDigit c \<or> c = 0x5F)"

text \<open>
  \<^verbatim>\<open>\s\<close>: the WhiteSpace and LineTerminator code points of ECMAScript. \<^verbatim>\<open>trim\<close>
  strips the same set.
\<close>

definition isSpace :: "jschar \<Rightarrow> bool" where
  "isSpace c = (c = 0x09 \<or> c = 0x0A \<or> c = 0x0B \<or> c = 0x0C \<or> c = 0x0D \<or> c = 0x20
     \<or> c = 0xA0 \<or> c = 0x1680 \<or> (0x2000 \<le> c \<and> c \<le> 0x200A) \<or> c = 0x2028 \<or> c = 0x2029
     \<or> c = 0x202F \<or> c = 0x205F \<or> c = 0x3000 \<or> c = 0xFEFF)"

subsection \<open>\<^verbatim>\<open>String.prototype.toLowerCase\<close>\<close>

text \<open>
  The mapping is written out for ASCII and Latin-1, and for the five code points above
  Latin-1 whose lower-case image has a code unit below U+0100 (U+0130, U+0178, U+1E9E,
  U+212A, U+212B). Every other code unit is left as it is: ECMAScript maps those to code
  units that are again above Latin-1 and that are not white space. The scripts only ever
  compare a lower-cased string with keys made of ASCII and Latin-1 letters, or filter it
  down to \<^verbatim>\<open>[\w\s-]\<close>, so they cannot tell the difference.
\<close>

definition lowerUnit :: "jschar \<Rightarrow> jsstring" where
  "lowerUnit c =
     (if isUpperAscii c then [c + 0x20]
      else if 0xC0 \<le> c \<and> c \<le> 0xDE \<and> c \<noteq> 0xD7 then [c + 0x20]
      else if c = 0x130 then [0x69, 0x307]
      else if c = 0x178 then [0xFF]
      else if c = 0x1E9E then [0xDF]
      else if c = 0x212A then [0x6B]
      else if c = 0x212B then [0xE5]
      else [c])"

definition toLowerCase :: "jsstring \<Rightarrow> jsstring" where
  "toLowerCase s = concat (map lowerUnit s)"

subsection \<open>Replacement with a global regular expression\<close>

fun startsWith :: "jsstring \<Rightarrow> jsstring \<Rightarrow> bool" where
  "startsWith [] s = True"
| "startsWith (p # ps) [] = False"
| "startsWith (p # ps) (c # cs) = (p = c \<and> startsWith ps cs)"

text \<open>
  \<^verbatim>\<open>s.replace(/[C]+/g, r)\<close> for a character class \<^verbatim>\<open>C\<close>: the scan goes left to
  right, and every maximal run of characters of the class becomes one copy of \<^verbatim>\<open>r\<close>.
\<close>

function replaceRuns :: "(jschar \<Rightarrow> bool) \<Rightarrow> jsstring \<Rightarrow> jsstring \<Rightarrow> jsstring" where
  "replaceRuns P r [] = []"
| "replaceRuns P r (c # cs) =
     (if P c then r @ replaceRuns P r (dropWhile P cs) else c # replaceRuns P r cs)"
  by pat_completeness auto
termination
  by (relation "measure (\<lambda>(P, r, s). length s)") (auto simp: le_imp_less_Suc length_dropWhile_le)

text \<open>
  \<^verbatim>\<open>s.replace(/^-|-$/g, '')\<close>: the first alternative matches a hyphen at index 0,
  the second a hyphen at the last index; the scan resumes after a match, so a string
  that is one hyphen loses it once.
\<close>

definition trimEdgeHyphens :: "jsstring \<Rightarrow> jsstring" where
  "trimEdgeHyphens s =
     (let s1 = (if startsWith [hyphen] s then tl s else s)
      in if s1 \<noteq> [] \<and> last s1 = hyphen then butlast s1 else s1)"

text \<open>
  \<^verbatim>\<open>s.replace(/lit/g, rep)\<close> for a literal, non-empty pattern: leftmost matches,
  not overlapping, the scan resuming after each match (the replacement is not scanned
  again).
\<close>

function replaceAll :: "jsstring \<Rightarrow> jsstring \<Rightarrow> jsstring \<Rightarrow> jsstring" where
  "replaceAll pat rep [] = []"
| "replaceAll pat rep (c # cs) =
     (if pat \<noteq> [] \<and> startsWith pat (c # cs)
      then rep @ replaceAll pat rep (drop (length pat) (c # cs))
      else c # replaceAll pat rep cs)"
  by pat_completeness auto
termination
  by (relation "measure (\<lambda>(pat, rep, s). length s)") auto

subsection \<open>Searching with a regular expression\<close>

text \<open>
  A regular expression is modelled by its anchored matcher: a function that, given the
  text from some index on, returns the match's result when the expression matches at
  that index. \<open>untilMatch m s\<close> tries the indices from left to right and returns the
  skipped text with the first result. This is both the search of \<^verbatim>\<open>match\<close> for the
  leftmost match and the lazy \<^verbatim>\<open>[\s\S]*?\<close>, which tries the shortest skip first.
\<close>

fun untilMatch :: "(jsstring \<Rightarrow> 'a option) \<Rightarrow> jsstring \<Rightarrow> (jsstring \<times> 'a) option" where
  "untilMatch m [] = map_option (Pair []) (m [])"
| "untilMatch m (c # cs) =
     (case m (c # cs) of
        Some r \<Rightarrow> Some ([], r)
      | None \<Rightarrow> map_option (\<lambda>(skipped, r). (c # skipped, r)) (untilMatch m cs))"

definition firstMatch :: "(jsstring \<Rightarrow> 'a option) \<Rightarrow> jsstring \<Rightarrow> 'a option" where
  "firstMatch m s = map_option snd (untilMatch m s)"

text \<open>A literal at the current index: the text after it.\<close>

definition afterPrefix :: "jsstring \<Rightarrow> jsstring \<Rightarrow> jsstring option" where
  "afterPrefix lit s = (if startsWith lit s then Some (drop (length lit) s) else None)"

text \<open>\<^verbatim>\<open>s.includes(lit)\<close>.\<close>

definition includesStr :: "jsstring \<Rightarrow> jsstring \<Rightarrow> bool" where
  "includesStr s lit = (firstMatch (afterPrefix lit) s \<noteq> None)"

text \<open>
  \<^verbatim>\<open>s.split(re)\<close> for an expression that matches no empty string: the pieces between
  the matches, an empty piece where the text starts or ends with a match.
\<close>

function splitBy :: "(jsstring \<Rightarrow> jsstring option) \<Rightarrow> jsstring \<Rightarrow> jsstring list" where
  "splitBy m s =
     (case untilMatch m s of
        None \<Rightarrow> [s]
      | Some (piece, rest) \<Rightarrow> if length rest < length s then piece # splitBy m rest else [s])"
  by pat_completeness auto
termination
  by (relation "measure (\<lambda>(m, s). length s)") auto

declare splitBy.simps [simp del]

text \<open>The separators of the three \<^verbatim>\<open>split\<close> calls, as anchored matchers.\<close>

definition spaceRun :: "jsstring \<Rightarrow> jsstring option" where
  "spaceRun s = (if takeWhile isSpace s = [] then None else Some (dropWhile isSpace s))"

definition oneSpace :: "jsstring \<Rightarrow> jsstring option" where
  "oneSpace s = afterPrefix [0x20] s"

subsection \<open>\<^verbatim>\<open>trim\<close>, \<^verbatim>\<open>padStart\<close>, array indexing\<close>

definition trim :: "jsstring \<Rightarrow> jsstring" where
  "trim s = rev (dropWhile isSpace (rev (dropWhile isSpace s)))"

text \<open>\<^verbatim>\<open>s.padStart(2, '0')\<close>.\<close>

definition padStart2 :: "jsstring \<Rightarrow> jsstring" where
  "padStart2 s = replicate (2 - length s) 0x30 @ s"

text \<open>\<^verbatim>\<open>xs[i]\<close> is \<^verbatim>\<open>undefined\<close> out of range.\<close>

definition nthOpt :: "'a list \<Rightarrow> nat \<Rightarrow> 'a option" where
  "nthOpt xs i = (if i < length xs then Some (xs ! i) else None)"

subsection \<open>Numbers\<close>

text \<open>
  \<^verbatim>\<open>parseInt\<close> of a string of decimal digits is the Number nearest to its value (a
  double: 53 significant bits, ties to even), and \<^verbatim>\<open>String.fromCharCode\<close> reduces
  its argument modulo \<open>2 ^ 16\<close>. A value that rounds to infinity gives the code unit 0,
  which is also what the reduction gives for any double that large. (ECMAScript lets
  \<^verbatim>\<open>parseInt\<close> replace the digits after the 20th by zeros; this model keeps them.)
\<close>

function bitLength :: "int \<Rightarrow> nat" where
  "bitLength n = (if n \<le> 0 then 0 else Suc (bitLength (n div 2)))"
  by pat_completeness auto
termination
  by (relation "measure nat") auto

declare bitLength.simps [simp del]

definition toNumber :: "int \<Rightarrow> int" where
  "toNumber n =
     (if n < 2 ^ 53 then n
      else let e = bitLength n - 53; q = n div 2 ^ e; r = n mod 2 ^ e; h = 2 ^ (e - 1)
           in (if h < r \<or> (r = h \<and> odd q) then q + 1 else q) * 2 ^ e)"

definition parseInt :: "jsstring \<Rightarrow> int" where
  "parseInt ds = toNumber (foldl (\<lambda>a c. 10 * a + uint (c - 0x30)) 0 ds)"

definition fromCharCode :: "int \<Rightarrow> jschar" where
  "fromCharCode n = word_of_int n"

subsection \<open>Property lookup on an object literal\<close>

text \<open>
  The month tables and the category tables are object literals, so a lookup
  \<^verbatim>\<open>table[key]\<close> that finds no own property goes on to \<^verbatim>\<open>Object.prototype\<close>.
  The values found there are functions, and for \<^verbatim>\<open>__proto__\<close> the prototype object
  itself; all of them are truthy. A template literal turns a built-in function into
  \<^verbatim>\<open>function name() { [native code] }\<close> (the text of V8, the engine of Node.js) and
  the prototype object into \<^verbatim>\<open>[object Object]\<close>.
\<close>

datatype jsval = Undefined | Str jsstring | NativeFunction jsstring | ObjectPrototype

definition objectPrototypeFunctions :: "(jsstring \<times> jsstring) list" where
  "objectPrototypeFunctions =
     [(js ''constructor'', js ''Object''),
      (js ''__defineGetter__'', js ''__defineGetter__''),
      (js ''__defineSetter__'', js ''__defineSetter__''),
      (js ''hasOwnProperty'', js ''hasOwnProperty''),
      (js ''__lookupGetter__'', js ''__lookupGetter__''),
      (js ''__lookupSetter__'', js ''__lookupSetter__''),
      (js ''isPrototypeOf'', js ''isPrototypeOf''),
      (js ''propertyIsEnumerable'', js ''propertyIsEnumerable''),
      (js ''toString'', js ''toString''),
      (js ''valueOf'', js ''valueOf''),
      (js ''toLocaleString'', js ''toLocaleString'')]"

definition inherited :: "jsstring \<Rightarrow> jsval" where
  "inherited key =
     (if key = js ''__proto__'' then ObjectPrototype
      else case map_of objectPrototypeFunctions key of
             Some name \<Rightarrow> NativeFunction name
           | None \<Rightarrow> Undefined)"

definition getProperty :: "(jsstring \<times> jsstring) list \<Rightarrow> jsstring \<Rightarrow> jsval" where
  "getProperty table key =
     (case map_of table key of Some v \<Rightarrow> Str v | None \<Rightarrow> inherited key)"

definition truthy :: "jsval \<Rightarrow> bool" where
  "truthy v = (case v of Undefined \<Rightarrow> False | Str s \<Rightarrow> s \<noteq> [] | _ \<Rightarrow> True)"

text \<open>\<^verbatim>\<open>v || d\<close>.\<close>

definition orElse :: "jsval \<Rightarrow> jsval \<Rightarrow> jsval" where
  "orElse v d = (if truthy v then v else d)"

definition toStr :: "jsval \<Rightarrow> jsstring" where
  "toStr v =
     (case v of
        Undefined \<Rightarrow> js ''undefined''
      | Str s \<Rightarrow> s
      | NativeFunction name \<Rightarrow> js ''function '' @ name @ js ''() { [native code] }''
      | ObjectPrototype \<Rightarrow> js ''[object Object]'')"

section \<open>migrate.mjs\<close>

subsection \<open>decodeEntities\<close>

text \<open>
  \<^verbatim>\<open>/&#(\d+);/\<close> at the current index: the digits and the text after the semicolon.
  The digits are the whole run, since a semicolon is no digit.
\<close>

definition numericRef :: "jsstring \<Rightarrow> (jsstring \<times> jsstring) option" where
  "numericRef s =
     do {
       r \<leftarrow> afterPrefix (js ''&#'') s;
       rest \<leftarrow> afterPrefix (js '';'') (dropWhile isDigit r);
       if takeWhile isDigit r = [] then None else Some (takeWhile isDigit r, rest)
     }"

text \<open>
  The first step, \<^verbatim>\<open>replace(/&#(\d+);/g, (_, n) => String.fromCharCode(parseInt(n)))\<close>:
  a reference becomes the code unit of its number, and the scan resumes after it. (The
  test on the lengths always holds; the termination proof reads it.)
\<close>

function decodeNumeric :: "jsstring \<Rightarrow> jsstring" where
  "decodeNumeric [] = []"
| "decodeNumeric (c # cs) =
     (case numericRef (c # cs) of
        None \<Rightarrow> c # decodeNumeric cs
      | Some (n, rest) \<Rightarrow>
          if length rest < length (c # cs)
          then fromCharCode (parseInt n) # decodeNumeric rest
          else c # decodeNumeric cs)"
  by pat_completeness auto
termination
  by (relation "measure length") auto

text \<open>The eighteen named references, in the order of the \<^verbatim>\<open>replace\<close> chain.\<close>

definition namedEntities :: "(jsstring \<times> jsstring) list" where
  "namedEntities =
     [(js ''&mdash;'', [0x2014]), (js ''&rarr;'', [0x2192]), (js ''&larr;'', [0x2190]),
      (js ''&amp;'', [0x26]), (js ''&quot;'', [0x22]), (js ''&lt;'', [0x3C]),
      (js ''&gt;'', [0x3E]), (js ''&euml;'', [0xEB]), (js ''&eacute;'', [0xE9]),
      (js ''&egrave;'', [0xE8]), (js ''&agrave;'', [0xE0]), (js ''&ccedil;'', [0xE7]),
      (js ''&Eacute;'', [0xC9]), (js ''&ucirc;'', [0xFB]), (js ''&ocirc;'', [0xF4]),
      (js ''&acirc;'', [0xE2]), (js ''&icirc;'', [0xEE]), (js ''&nbsp;'', [0x20])]"

definition decodeEntities :: "jsstring \<Rightarrow> jsstring" where
  "decodeEntities str =
     foldl (\<lambda>s (pat, rep). replaceAll pat rep s) (decodeNumeric str) namedEntities"

text \<open>A reference of the table stands somewhere in the text.\<close>

definition matches :: "(jsstring \<Rightarrow> 'a option) \<Rightarrow> jsstring \<Rightarrow> bool" where
  "matches m s = (firstMatch m s \<noteq> None)"

definition hasReference :: "jsstring \<Rightarrow> bool" where
  "hasReference s =
     (matches numericRef s \<or> list_ex (\<lambda>(pat, rep). matches (afterPrefix pat) s) namedEntities)"

subsection \<open>slugify\<close>

definition slugify :: "jsstring \<Rightarrow> jsstring" where
  "slugify title =
     take 60
       (trimEdgeHyphens
         (replaceRuns (\<lambda>c. c = hyphen) [hyphen]
           (replaceRuns isSpace [hyphen]
             (filter (\<lambda>c. isWordChar c \<or> isSpace c \<or> c = hyphen)
               (toLowerCase title)))))"

text \<open>The slug before the last step, \<^verbatim>\<open>substring(0, 60)\<close>.\<close>

definition slugUntruncated :: "jsstring \<Rightarrow> jsstring" where
  "slugUntruncated title =
     trimEdgeHyphens
       (replaceRuns (\<lambda>c. c = hyphen) [hyphen]
         (replaceRuns isSpace [hyphen]
           (filter (\<lambda>c. isWordChar c \<or> isSpace c \<or> c = hyphen)
             (toLowerCase title))))"

text \<open>The characters a slug is made of.\<close>

definition isSlugChar :: "jschar \<Rightarrow> bool" where
  "isSlugChar c = (isLowerAscii c \<or> isDigit c \<or> c = 0x5F \<or> c = hyphen)"

subsection \<open>The date grammars\<close>

definition enMonths :: "(jsstring \<times> jsstring) list" where
  "enMonths =
     [(js ''january'', js ''01''), (js ''february'', js ''02''), (js ''march'', js ''03''),
      (js ''april'', js ''04''), (js ''may'', js ''05''), (js ''june'', js ''06''),
      (js ''july'', js ''07''), (js ''august'', js ''08''), (js ''september'', js ''09''),
      (js ''october'', js ''10''), (js ''november'', js ''11''), (js ''december'', js ''12'')]"

text \<open>
  \<^verbatim>\<open>replace(',', '')\<close> with a string pattern removes the first comma only, which is
  \<^const>\<open>remove1\<close>.
\<close>

definition parseEnDate :: "jsstring \<Rightarrow> jsstring" where
  "parseEnDate dateStr =
     (case splitBy spaceRun (remove1 0x2C (trim dateStr)) of
        [p0, p1, p2] \<Rightarrow>
          (let month = orElse (getProperty enMonths (toLowerCase p0)) (Str (js ''01''));
               day = padStart2 p1;
               year = p2
           in year @ js ''-'' @ toStr month @ js ''-'' @ day)
      | _ \<Rightarrow> dateStr)"

text \<open>The keys for February, August and December have a Latin-1 letter (U+00E9, U+00FB).\<close>

definition frMonths :: "(jsstring \<times> jsstring) list" where
  "frMonths =
     [(js ''janvier'', js ''01''), (js ''f'' @ [0xE9] @ js ''vrier'', js ''02''),
      (js ''mars'', js ''03''), (js ''avril'', js ''04''), (js ''mai'', js ''05''),
      (js ''juin'', js ''06''), (js ''juillet'', js ''07''),
      (js ''ao'' @ [0xFB] @ js ''t'', js ''08''), (js ''septembre'', js ''09''),
      (js ''octobre'', js ''10''), (js ''novembre'', js ''11''),
      (js ''d'' @ [0xE9] @ js ''cembre'', js ''12'')]"

definition parseFrDate :: "jsstring \<Rightarrow> jsstring" where
  "parseFrDate dateStr =
     (let decoded = trim (decodeEntities dateStr)
      in case splitBy oneSpace decoded of
           [p0, p1, p2] \<Rightarrow>
             (let day = padStart2 p0;
                  month = orElse (getProperty frMonths (toLowerCase p1)) (Str (js ''01''));
                  year = p2
              in year @ js ''-'' @ toStr month @ js ''-'' @ day)
         | _ \<Rightarrow> decoded)"

text \<open>The Hebrew month names, as code units (U+05D0 is alef).\<close>

definition heMonths :: "(jsstring \<times> jsstring) list" where
  "heMonths =
     [([0x5D9, 0x5E0, 0x5D5, 0x5D0, 0x5E8], js ''01''),
      ([0x5E4, 0x5D1, 0x5E8, 0x5D5, 0x5D0, 0x5E8], js ''02''),
      ([0x5DE, 0x5E8, 0x5E5], js ''03''),
      ([0x5D0, 0x5E4, 0x5E8, 0x5D9, 0x5DC], js ''04''),
      ([0x5DE, 0x5D0, 0x5D9], js ''05''),
      ([0x5D9, 0x5D5, 0x5E0, 0x5D9], js ''06''),
      ([0x5D9, 0x5D5, 0x5DC, 0x5D9], js ''07''),
      ([0x5D0, 0x5D5, 0x5D2, 0x5D5, 0x5E1, 0x5D8], js ''08''),
      ([0x5E1, 0x5E4, 0x5D8, 0x5DE, 0x5D1, 0x5E8], js ''09''),
      ([0x5D0, 0x5D5, 0x5E7, 0x5D8, 0x5D5, 0x5D1, 0x5E8], js ''10''),
      ([0x5E0, 0x5D5, 0x5D1, 0x5DE, 0x5D1, 0x5E8], js ''11''),
      ([0x5D3, 0x5E6, 0x5DE, 0x5D1, 0x5E8], js ''12'')]"

definition parseHeDate :: "jsstring \<Rightarrow> jsstring" where
  "parseHeDate dateStr =
     (let decoded = trim (decodeEntities dateStr)
      in case splitBy oneSpace decoded of
           [p0, p1, p2] \<Rightarrow>
             (let day = padStart2 p0;
                  month = orElse (getProperty heMonths p1) (Str (js ''01''));
                  year = p2
              in year @ js ''-'' @ toStr month @ js ''-'' @ day)
         | _ \<Rightarrow> decoded)"

subsection \<open>parsePost\<close>

datatype lang = En | Fr | He

text \<open>
  A post. The field \<^verbatim>\<open>image\<close> is \<open>image_url\<close> here. The type of \<open>date\<close> is a
  parameter: the migration stores a string, the build script reads whatever the
  front-matter parser made of the header line.
\<close>

record 'd post =
  title :: jsstring
  slug :: jsstring
  date :: 'd
  category :: jsstring
  excerpt :: jsstring
  image_url :: jsstring
  image_alt :: jsstring
  featured :: bool

definition nl :: jsstring where
  "nl = [0x0A]"

definition quote :: jschar where
  "quote = 0x22"

definition notQuote :: "jschar \<Rightarrow> bool" where
  "notQuote c = (c \<noteq> quote)"

text \<open>\<^verbatim>\<open>/data-cat="([^"]+)"/\<close>\<close>

definition catAttrRe :: "jsstring \<Rightarrow> jsstring option" where
  \<open>catAttrRe s =
     do {
       r \<leftarrow> afterPrefix (js ''data-cat="'') s;
       _ \<leftarrow> afterPrefix [quote] (dropWhile notQuote r);
       if takeWhile notQuote r = [] then None else Some (takeWhile notQuote r)
     }\<close>

text \<open>\<^verbatim>\<open>/<img src="([^"]*)" alt="([^"]*)"/\<close>\<close>

definition imgRe :: "jsstring \<Rightarrow> (jsstring \<times> jsstring) option" where
  \<open>imgRe s =
     do {
       r \<leftarrow> afterPrefix (js ''<img src="'') s;
       r2 \<leftarrow> afterPrefix (js ''" alt="'') (dropWhile notQuote r);
       _ \<leftarrow> afterPrefix [quote] (dropWhile notQuote r2);
       Some (takeWhile notQuote r, takeWhile notQuote r2)
     }\<close>

text \<open>\<^verbatim>\<open>/open([\s\S]*?)close/\<close> for two literals.\<close>

definition between :: "jsstring \<Rightarrow> jsstring \<Rightarrow> jsstring \<Rightarrow> jsstring option" where
  "between opening closing s =
     do {
       r \<leftarrow> afterPrefix opening s;
       (captured, _) \<leftarrow> untilMatch (afterPrefix closing) r;
       Some captured
     }"

text \<open>\<^verbatim>\<open>m?.[1]?.trim() || ''\<close>\<close>

definition trimmedOrEmpty :: "jsstring option \<Rightarrow> jsstring" where
  "trimmedOrEmpty m = (case m of None \<Rightarrow> [] | Some t \<Rightarrow> trim t)"

definition parsePost :: "jsstring \<Rightarrow> lang \<Rightarrow> bool \<Rightarrow> jsstring post" where
  \<open>parsePost block lang isFeatured =
     (let cat = (case firstMatch catAttrRe block of None \<Rightarrow> [] | Some c \<Rightarrow> c);
          imgMatch = firstMatch imgRe block;
          dateMatch =
            (if isFeatured
             then firstMatch (between (js ''<div class="featured-date">'') (js ''</div>'')) block
             else firstMatch (between (js ''<div class="blog-card-date">'') (js ''</div>'')) block);
          titleMatch =
            (if isFeatured
             then firstMatch (between (js ''<h2 class="featured-title"><a href="#">'')
                    (js ''</a></h2>'')) block
             else firstMatch (between (js ''<h3 class="blog-card-title"><a href="#">'')
                    (js ''</a></h3>'')) block);
          excerptMatch =
            (if isFeatured
             then firstMatch (between (js ''<p class="featured-excerpt">'') (js ''</p>'')) block
             else firstMatch (between (js ''<p class="blog-card-excerpt">'') (js ''</p>'')) block);
          title = decodeEntities (trimmedOrEmpty titleMatch);
          dateStr = decodeEntities (trimmedOrEmpty dateMatch);
          date = (case lang of
                    En \<Rightarrow> parseEnDate dateStr
                  | Fr \<Rightarrow> parseFrDate dateStr
                  | He \<Rightarrow> parseHeDate dateStr);
          slugSource =
            (if lang = En then title
             else decodeEntities
                    (case imgMatch of
                       None \<Rightarrow> title
                     | Some (src, alt) \<Rightarrow> if alt = [] then title else alt))
      in \<lparr> title = title,
           slug = slugify slugSource,
           date = date,
           category = cat,
           excerpt = decodeEntities (trimmedOrEmpty excerptMatch),
           image_url = (case imgMatch of None \<Rightarrow> [] | Some (src, alt) \<Rightarrow> src),
           image_alt = decodeEntities (case imgMatch of None \<Rightarrow> [] | Some (src, alt) \<Rightarrow> alt),
           featured = isFeatured \<rparr>)\<close>

subsection \<open>extractFeatured and extractCards\<close>

text \<open>
  The end of the featured block, \<^verbatim>\<open><\/div>\s*<\/div>\s*\n\s*\n\s*<!-- Blog Grid -->\<close>.
  Every \<^verbatim>\<open>\s*\<close> stands before a literal that starts with \<^verbatim>\<open><\<close>, so the white
  space matched is the whole run; \<^verbatim>\<open>\s*\n\s*\n\s*\<close> matches a run of white space
  exactly when the run has two line feeds.
\<close>

definition featuredEnd :: "jsstring \<Rightarrow> jsstring option" where
  \<open>featuredEnd s =
     do {
       r1 \<leftarrow> afterPrefix (js ''</div>'') s;
       r2 \<leftarrow> afterPrefix (js ''</div>'') (dropWhile isSpace r1);
       if length (filter (\<lambda>c. c = 0x0A) (takeWhile isSpace r2)) < 2 then None
       else afterPrefix (js ''<!-- Blog Grid -->'') (dropWhile isSpace r2)
     }\<close>

text \<open>
  \<^verbatim>\<open>/<div class="featured-post reveal"[\s\S]*?<\/div>...<!-- Blog Grid -->/\<close>; the
  result is the matched text \<^verbatim>\<open>m[0]\<close>.
\<close>

definition featuredRe :: "jsstring \<Rightarrow> jsstring option" where
  \<open>featuredRe s =
     do {
       r \<leftarrow> afterPrefix (js ''<div class="featured-post reveal"'') s;
       rest \<leftarrow> firstMatch featuredEnd r;
       Some (take (length s - length rest) s)
     }\<close>

definition extractFeatured :: "jsstring \<Rightarrow> lang \<Rightarrow> jsstring post option" where
  "extractFeatured html lang =
     (case firstMatch featuredRe html of
        None \<Rightarrow> None
      | Some m \<Rightarrow> Some (parsePost m lang True))"

text \<open>\<^verbatim>\<open><\/div>\s*<\/div>\s*<\/section>\<close>\<close>

definition gridEnd :: "jsstring \<Rightarrow> jsstring option" where
  \<open>gridEnd s =
     do {
       r1 \<leftarrow> afterPrefix (js ''</div>'') s;
       r2 \<leftarrow> afterPrefix (js ''</div>'') (dropWhile isSpace r1);
       afterPrefix (js ''</section>'') (dropWhile isSpace r2)
     }\<close>

text \<open>
  \<^verbatim>\<open>/<!-- Blog Grid -->\s*<div class="blog-grid">([\s\S]*?)<\/div>\s*<\/div>\s*<\/section>/\<close>;
  the result is the captured text.
\<close>

definition gridRe :: "jsstring \<Rightarrow> jsstring option" where
  \<open>gridRe s =
     do {
       r \<leftarrow> afterPrefix (js ''<!-- Blog Grid -->'') s;
       r2 \<leftarrow> afterPrefix (js ''<div class="blog-grid">'') (dropWhile isSpace r);
       (captured, _) \<leftarrow> untilMatch gridEnd r2;
       Some captured
     }\<close>

text \<open>\<^verbatim>\<open>/<!-- Post \d+ -->/\<close>\<close>

definition postComment :: "jsstring \<Rightarrow> jsstring option" where
  \<open>postComment s =
     do {
       r \<leftarrow> afterPrefix (js ''<!-- Post '') s;
       if takeWhile isDigit r = [] then None
       else afterPrefix (js '' -->'') (dropWhile isDigit r)
     }\<close>

definition extractCards :: "jsstring \<Rightarrow> lang \<Rightarrow> jsstring post list" where
  "extractCards html lang =
     (case firstMatch gridRe html of
        None \<Rightarrow> []
      | Some gridHtml \<Rightarrow>
          map (\<lambda>block. parsePost block lang False)
            (filter (\<lambda>b. includesStr b (js ''blog-card'')) (splitBy postComment gridHtml)))"

subsection \<open>toMarkdown\<close>

text \<open>\<^verbatim>\<open>xs.join(sep)\<close>; a template literal of several lines is its lines joined by a line feed.\<close>

fun joinWith :: "jsstring \<Rightarrow> jsstring list \<Rightarrow> jsstring" where
  "joinWith sep [] = []"
| "joinWith sep [x] = x"
| "joinWith sep (x # y # ys) = x @ sep @ joinWith sep (y # ys)"

definition showBool :: "bool \<Rightarrow> jsstring" where
  "showBool b = (if b then js ''true'' else js ''false'')"

definition toMarkdown :: "jsstring post \<Rightarrow> jsstring" where
  \<open>toMarkdown post =
     (let escTitle = replaceAll [quote] [0x5C, quote] (title post);
          escExcerpt = replaceAll [quote] [0x5C, quote] (excerpt post);
          escAlt = replaceAll [quote] [0x5C, quote] (image_alt post)
      in joinWith nl
           [js ''---'',
            js ''title: "'' @ escTitle @ js ''"'',
            js ''slug: "'' @ slug post @ js ''"'',
            js ''date: '' @ date post,
            js ''category: "'' @ category post @ js ''"'',
            js ''excerpt: "'' @ escExcerpt @ js ''"'',
            js ''image: "'' @ image_url post @ js ''"'',
            js ''image_alt: "'' @ escAlt @ js ''"'',
            js ''featured: '' @ showBool (featured post),
            js ''---'',
            [],
            title post,
            []])\<close>

subsection \<open>The migration run\<close>

text \<open>
  The file system is a map from file names to contents: reading a file that is not
  there throws. Writing is assumed to succeed (the output directories exist); the files
  written so far stay written when a later step throws, so the run returns them together
  with the error, if any. The console output is left out.
\<close>

datatype error = TypeError | FileNotFound

record written =
  w_lang :: lang
  w_file :: jsstring
  w_text :: jsstring

definition files :: "lang \<Rightarrow> jsstring" where
  "files lang = (case lang of En \<Rightarrow> js ''blog.html'' | Fr \<Rightarrow> js ''blog-fr.html'' | He \<Rightarrow> js ''blog-he.html'')"

definition writeFile :: "lang \<Rightarrow> jsstring post \<Rightarrow> written" where
  "writeFile lang p = \<lparr> w_lang = lang, w_file = slug p @ js ''.md'', w_text = toMarkdown p \<rparr>"

text \<open>
  The loop \<^verbatim>\<open>for (let i = 0; i < cards.length; i++)\<close>, with
  \<^verbatim>\<open>cards[i].slug = enSlugs[i + 1] || cards[i].slug\<close>: an index out of range gives
  \<^verbatim>\<open>undefined\<close> and an empty string is falsy, and in both cases the card keeps its slug.
\<close>

definition canonicalOr :: "jsstring list \<Rightarrow> nat \<Rightarrow> jsstring \<Rightarrow> jsstring" where
  "canonicalOr enSlugs i own =
     (case nthOpt enSlugs i of None \<Rightarrow> own | Some s \<Rightarrow> if s = [] then own else s)"

function cardLoop ::
  "lang \<Rightarrow> jsstring list \<Rightarrow> jsstring post list \<Rightarrow> nat \<Rightarrow> written list
     \<Rightarrow> jsstring post list \<times> written list" where
  "cardLoop lang enSlugs cards i out =
     (if i < length cards
      then let card = (cards ! i)\<lparr>slug := canonicalOr enSlugs (i + 1) (slug (cards ! i))\<rparr>
           in cardLoop lang enSlugs (cards[i := card]) (i + 1) (out @ [writeFile lang card])
      else (cards, out))"
  by pat_completeness auto
termination
  by (relation "measure (\<lambda>(lang, enSlugs, cards, i, out). length cards - i)") auto

declare cardLoop.simps [simp del]

text \<open>
  One round of \<^verbatim>\<open>for (const [lang, file] of Object.entries(files))\<close>. The list
  \<^verbatim>\<open>enSlugs\<close> is never empty in a run; were it empty, \<^verbatim>\<open>enSlugs[0]\<close> would be
  \<^verbatim>\<open>undefined\<close>, which the file name and the header print as that word.
\<close>

definition migrateLang ::
  "(jsstring \<Rightarrow> jsstring option) \<Rightarrow> jsstring list \<Rightarrow> lang \<Rightarrow> written list
     \<Rightarrow> error + written list" where
  "migrateLang fs enSlugs lang out =
     (case fs (files lang) of
        None \<Rightarrow> Inl FileNotFound
      | Some html \<Rightarrow>
          (let featuredPost = extractFeatured html lang;
               cards = extractCards html lang;
               out1 = (case featuredPost of
                         None \<Rightarrow> out
                       | Some f \<Rightarrow>
                           out @ [writeFile lang
                                    (f\<lparr>slug := (case nthOpt enSlugs 0 of
                                                   None \<Rightarrow> js ''undefined''
                                                 | Some s \<Rightarrow> s)\<rparr>)])
           in Inr (snd (cardLoop lang enSlugs cards 0 out1))))"

fun langLoop ::
  "(jsstring \<Rightarrow> jsstring option) \<Rightarrow> jsstring list \<Rightarrow> lang list \<Rightarrow> written list
     \<Rightarrow> written list \<times> error option" where
  "langLoop fs enSlugs [] out = (out, None)"
| "langLoop fs enSlugs (lang # rest) out =
     (case migrateLang fs enSlugs lang out of
        Inl e \<Rightarrow> (out, Some e)
      | Inr out' \<Rightarrow> langLoop fs enSlugs rest out')"

text \<open>
  The script's top level. \<^verbatim>\<open>enFeatured.slug\<close> throws a TypeError when
  \<^verbatim>\<open>extractFeatured\<close> returned \<^verbatim>\<open>null\<close> for the English page.
\<close>

definition migrate :: "(jsstring \<Rightarrow> jsstring option) \<Rightarrow> written list \<times> error option" where
  "migrate fs =
     (case fs (files En) of
        None \<Rightarrow> ([], Some FileNotFound)
      | Some enHtml \<Rightarrow>
          (let enFeatured = extractFeatured enHtml En;
               enCards = extractCards enHtml En
           in case enFeatured of
                None \<Rightarrow> ([], Some TypeError)
              | Some f \<Rightarrow> langLoop fs (slug f # map slug enCards) [En, Fr, He] []))"

section \<open>The build script\<close>

subsection \<open>Language configurations\<close>

text \<open>
  The fields of \<^verbatim>\<open>langs\<close> that the generators read (\<^verbatim>\<open>locale\<close> is
  \<open>locale_tag\<close> here). The folder and file names are used for reading and writing only.
\<close>

record langConfig =
  categoryLabels :: "(jsstring \<times> jsstring) list"
  readMore :: jsstring
  listenNow :: jsstring
  readFull :: jsstring
  arrow :: jsstring
  locale_tag :: jsstring
  dateOptions :: "(jsstring \<times> jsstring) list"

definition langs :: "lang \<Rightarrow> langConfig" where
  \<open>langs lang =
     (case lang of
        En \<Rightarrow>
          \<lparr> categoryLabels =
              [(js ''real-estate'', js ''Israel Real Estate''),
               (js ''economy'', js ''The Shekel Exchange''),
               (js ''team'', js ''The Team''),
               (js ''podcasts'', js ''Podcasts'')],
            readMore = js ''Read More'',
            listenNow = js ''Listen Now'',
            readFull = js ''Read Full Article'',
            arrow = js ''&rarr;'',
            locale_tag = js ''en-US'',
            dateOptions =
              [(js ''month'', js ''long''), (js ''day'', js ''numeric''), (js ''year'', js ''numeric'')] \<rparr>
      | Fr \<Rightarrow>
          \<lparr> categoryLabels =
              [(js ''real-estate'', js ''Immobilier en Isra&euml;l''),
               (js ''economy'', js ''Le Change du Shekel''),
               (js ''team'', js ''L'&Eacute;quipe''),
               (js ''podcasts'', js ''Podcasts'')],
            readMore = js ''Lire la Suite'',
            listenNow = js ''&Eacute;couter'',
            readFull = js ''Lire l'Article Complet'',
            arrow = js ''&rarr;'',
            locale_tag = js ''fr-FR'',
            dateOptions =
              [(js ''day'', js ''numeric''), (js ''month'', js ''long''), (js ''year'', js ''numeric'')] \<rparr>
      | He \<Rightarrow>
          \<lparr> categoryLabels =
              [(js ''real-estate'',
                js ''&#1504;&#1491;&#1500;&quot;&#1503; &#1489;&#1497;&#1513;&#1512;&#1488;&#1500;''),
               (js ''economy'', js ''&#1513;&#1506;&#1512; &#1492;&#1513;&#1511;&#1500;''),
               (js ''team'', js ''&#1492;&#1510;&#1493;&#1493;&#1514;''),
               (js ''podcasts'',
                js ''&#1508;&#1493;&#1491;&#1511;&#1488;&#1505;&#1496;&#1497;&#1501;'')],
            readMore = js ''&#1511;&#1512;&#1488;&#1493; &#1506;&#1493;&#1491;'',
            listenNow =
              js ''&#1492;&#1488;&#1494;&#1497;&#1504;&#1493; &#1506;&#1499;&#1513;&#1497;&#1493;'',
            readFull =
              js ''&#1511;&#1512;&#1488;&#1493; &#1488;&#1514; &#1492;&#1502;&#1488;&#1502;&#1512; &#1492;&#1502;&#1500;&#1488;'',
            arrow = js ''&larr;'',
            locale_tag = js ''he-IL'',
            dateOptions =
              [(js ''day'', js ''numeric''), (js ''month'', js ''long''), (js ''year'', js ''numeric'')] \<rparr>)\<close>

subsection \<open>Helpers\<close>

definition escapeHtml :: "jsstring \<Rightarrow> jsstring" where
  "escapeHtml str =
     replaceAll [quote] (js ''&quot;'')
       (replaceAll [0x3E] (js ''&gt;'')
         (replaceAll [0x3C] (js ''&lt;'')
           (replaceAll [0x26] (js ''&amp;'') str)))"

definition cardColors :: "jsstring list" where
  "cardColors = [js ''0D2847'', js ''1a3a5c'', js ''1a4a6e'', js ''1a3550'', js ''1a2844'', js ''1a3048'']"

definition featuredColor :: jsstring where
  "featuredColor = js ''1a2e4a''"

text \<open>The decimal text of an index, as a template literal prints it.\<close>

function showNat :: "nat \<Rightarrow> jsstring" where
  "showNat n = (if n < 10 then [0x30 + of_nat n] else showNat (n div 10) @ [0x30 + of_nat (n mod 10)])"
  by pat_completeness auto
termination
  by (relation "measure id") auto

declare showNat.simps [simp del]

subsection \<open>HTML generators\<close>

text \<open>
  \<^verbatim>\<open>formatDate\<close> formats through \<^verbatim>\<open>Intl.DateTimeFormat\<close>, whose text comes from the
  locale data of the engine; the generators take it as the parameter \<open>formatDate\<close>.
  The two blocks of the featured post are the constants \<^verbatim>\<open>imgBlock\<close> and
  \<^verbatim>\<open>bodyBlock\<close> of \<^verbatim>\<open>generateFeaturedPost\<close>.
\<close>

definition catLabelOf :: "langConfig \<Rightarrow> jsstring \<Rightarrow> jsstring" where
  "catLabelOf cfg cat = toStr (orElse (getProperty (categoryLabels cfg) cat) (Str cat))"

definition linkOf :: "lang \<Rightarrow> langConfig \<Rightarrow> jsstring \<Rightarrow> jsstring" where
  "linkOf lang cfg linkText =
     (if lang = He then arrow cfg @ js '' '' @ linkText else linkText @ js '' '' @ arrow cfg)"

definition featuredImgBlock :: "'d post \<Rightarrow> jsstring" where
  \<open>featuredImgBlock post =
     (let imgSrc = (if image_url post = []
                    then js ''https://placehold.co/800x500/'' @ featuredColor @ js ''/'' @ featuredColor
                    else image_url post);
          imgAlt = escapeHtml (if image_alt post = [] then title post else image_alt post)
      in joinWith nl
           [js ''      <div class="featured-img">'',
            js ''        <img src="'' @ imgSrc @ js ''" alt="'' @ imgAlt @ js ''"/>'',
            js ''        <div class="featured-img-overlay"></div>'',
            js ''      </div>''])\<close>

definition featuredBodyBlock ::
  "('d \<Rightarrow> jsstring \<Rightarrow> (jsstring \<times> jsstring) list \<Rightarrow> jsstring) \<Rightarrow> 'd post \<Rightarrow> lang \<Rightarrow> jsstring" where
  \<open>featuredBodyBlock formatDate post lang =
     (let cfg = langs lang;
          catLabel = catLabelOf cfg (category post);
          date = formatDate (date post) (locale_tag cfg) (dateOptions cfg);
          title = escapeHtml (title post);
          excerpt = escapeHtml (excerpt post);
          linkText = (if category post = js ''podcasts'' then listenNow cfg else readFull cfg)
      in joinWith nl
           [js ''      <div class="featured-body">'',
            js ''        <div class="featured-cat">'' @ catLabel @ js ''</div>'',
            js ''        <div class="featured-date">'' @ date @ js ''</div>'',
            js ''        <h2 class="featured-title"><a href="#">'' @ title @ js ''</a></h2>'',
            js ''        <p class="featured-excerpt">'' @ excerpt @ js ''</p>'',
            js ''        <a href="#" class="featured-link">'' @ linkOf lang cfg linkText @ js ''</a>'',
            js ''      </div>''])\<close>

definition generateFeaturedPost ::
  "('d \<Rightarrow> jsstring \<Rightarrow> (jsstring \<times> jsstring) list \<Rightarrow> jsstring) \<Rightarrow> 'd post \<Rightarrow> lang \<Rightarrow> jsstring" where
  \<open>generateFeaturedPost formatDate post lang =
     (let imgBlock = featuredImgBlock post;
          bodyBlock = featuredBodyBlock formatDate post lang;
          inner = (if lang = He then bodyBlock @ nl @ imgBlock else imgBlock @ nl @ bodyBlock)
      in joinWith nl
           [js ''    <!-- Featured Post -->'',
            js ''    <div class="featured-post reveal" data-cat="'' @ category post @ js ''">'',
            inner,
            js ''    </div>''])\<close>

definition generateBlogCard ::
  "('d \<Rightarrow> jsstring \<Rightarrow> (jsstring \<times> jsstring) list \<Rightarrow> jsstring) \<Rightarrow> 'd post \<Rightarrow> nat \<Rightarrow> lang \<Rightarrow> jsstring" where
  \<open>generateBlogCard formatDate post index lang =
     (let cfg = langs lang;
          catLabel = catLabelOf cfg (category post);
          date = formatDate (date post) (locale_tag cfg) (dateOptions cfg);
          rdClass = js ''rd'' @ showNat (index mod 6 + 1);
          colorIdx = index mod length cardColors;
          color = cardColors ! colorIdx;
          imgSrc = (if image_url post = []
                    then js ''https://placehold.co/600x400/'' @ color @ js ''/'' @ color
                    else image_url post);
          imgAlt = escapeHtml (if image_alt post = [] then title post else image_alt post);
          title = escapeHtml (title post);
          excerpt = escapeHtml (excerpt post);
          linkText = (if category post = js ''podcasts'' then listenNow cfg else readMore cfg)
      in joinWith nl
           [js ''      <!-- Post '' @ showNat (index + 1) @ js '' -->'',
            js ''      <div class="blog-card reveal '' @ rdClass @ js ''" data-cat="'' @ category post @ js ''">'',
            js ''        <div class="blog-card-img">'',
            js ''          <img src="'' @ imgSrc @ js ''" alt="'' @ imgAlt @ js ''"/>'',
            js ''          <div class="blog-card-img-overlay"></div>'',
            js ''          <div class="blog-card-img-color"></div>'',
            js ''          <span class="blog-card-cat">'' @ catLabel @ js ''</span>'',
            js ''        </div>'',
            js ''        <div class="blog-card-body">'',
            js ''          <div class="blog-card-date">'' @ date @ js ''</div>'',
            js ''          <h3 class="blog-card-title"><a href="#">'' @ title @ js ''</a></h3>'',
            js ''          <p class="blog-card-excerpt">'' @ excerpt @ js ''</p>'',
            js ''          <a href="#" class="blog-card-link">'' @ linkOf lang cfg linkText @ js ''</a>'',
            js ''        </div>'',
            js ''      </div>''])\<close>

subsection \<open>Main build\<close>

text \<open>
  \<^verbatim>\<open>posts.sort((a, b) => new Date(b.date) - new Date(a.date))\<close>. The time value of
  \<^verbatim>\<open>new Date(d)\<close> is the parameter \<open>newDate\<close>, \<open>None\<close> for an invalid date; the
  difference is then \<^verbatim>\<open>NaN\<close>, which \<^verbatim>\<open>sort\<close> reads as 0. Only the sign of the
  difference matters to the sort.
\<close>

definition compareDates :: "('d \<Rightarrow> int option) \<Rightarrow> 'd post \<Rightarrow> 'd post \<Rightarrow> int" where
  "compareDates newDate a b =
     (case (newDate (date b), newDate (date a)) of
        (Some db, Some da) \<Rightarrow> db - da
      | _ \<Rightarrow> 0)"

text \<open>
  \<^verbatim>\<open>Array.prototype.sort\<close> is stable, and with a consistent comparator its result
  is the one a stable insertion sort computes. (With an invalid date the comparator is
  not consistent and the order is left to the engine.)
\<close>

fun insertBy :: "('a \<Rightarrow> 'a \<Rightarrow> int) \<Rightarrow> 'a \<Rightarrow> 'a list \<Rightarrow> 'a list" where
  "insertBy cmp x [] = [x]"
| "insertBy cmp x (y # ys) = (if cmp x y \<le> 0 then x # y # ys else y # insertBy cmp x ys)"

definition sortBy :: "('a \<Rightarrow> 'a \<Rightarrow> int) \<Rightarrow> 'a list \<Rightarrow> 'a list" where
  "sortBy cmp xs = foldr (insertBy cmp) xs []"

text \<open>\<^verbatim>\<open>xs.findIndex(P)\<close>, \<open>None\<close> for -1.\<close>

fun findIndex :: "('a \<Rightarrow> bool) \<Rightarrow> 'a list \<Rightarrow> nat option" where
  "findIndex P [] = None"
| "findIndex P (x # xs) = (if P x then Some 0 else map_option Suc (findIndex P xs))"

definition featuredIdx :: "'d post list \<Rightarrow> nat" where
  "featuredIdx posts = (case findIndex featured posts of None \<Rightarrow> 0 | Some i \<Rightarrow> i)"

text \<open>\<^verbatim>\<open>posts.filter((_, i) => i !== featuredIdx)\<close>\<close>

definition cardsOf :: "'d post list \<Rightarrow> 'd post list" where
  "cardsOf posts = map snd (filter (\<lambda>(i, p). i \<noteq> featuredIdx posts) (enumerate 0 posts))"

text \<open>
  One round of the main loop, from the posts read from the content folder and the two
  templates to the page written. \<^verbatim>\<open>posts[featuredIdx]\<close> is \<^verbatim>\<open>undefined\<close> when
  there is no post, and \<^verbatim>\<open>generateFeaturedPost\<close> then throws a TypeError.
\<close>

definition buildPage ::
  "('d \<Rightarrow> jsstring \<Rightarrow> (jsstring \<times> jsstring) list \<Rightarrow> jsstring) \<Rightarrow> ('d \<Rightarrow> int option) \<Rightarrow> lang
     \<Rightarrow> 'd post list \<Rightarrow> jsstring \<Rightarrow> jsstring \<Rightarrow> error + jsstring" where
  \<open>buildPage formatDate newDate lang loaded topTemplate bottomTemplate =
     (let posts = sortBy (compareDates newDate) loaded;
          cards = cardsOf posts
      in case nthOpt posts (featuredIdx posts) of
           None \<Rightarrow> Inl TypeError
         | Some featuredPost \<Rightarrow>
             (let featuredHtml = generateFeaturedPost formatDate featuredPost lang;
                  cardsHtml = joinWith (nl @ nl)
                    (map (\<lambda>(i, post). generateBlogCard formatDate post i lang) (enumerate 0 cards));
                  gridHtml = joinWith nl
                    [[],
                     js ''    <!-- Blog Grid -->'',
                     js ''    <div class="blog-grid">'',
                     [],
                     cardsHtml,
                     [],
                     js ''    </div>'',
                     js ''  </div>'',
                     js ''</section>'',
                     [],
                     []]
              in Inr (topTemplate @ featuredHtml @ nl @ gridHtml @ bottomTemplate)))\<close>

section \<open>Notions used in the statements\<close>

text \<open>No two hyphens stand next to each other.\<close>

definition noDouble :: "jsstring \<Rightarrow> bool" where
  "noDouble s = successively (\<lambda>a b. \<not> (a = hyphen \<and> b = hyphen)) s"

text \<open>
  The two blocks of a card: the lines of the element of class \<^verbatim>\<open>blog-card-img\<close> and
  those of the element of class \<^verbatim>\<open>blog-card-body\<close> in the template of
  \<^verbatim>\<open>generateBlogCard\<close>.
\<close>

definition cardImgSrc :: "'d post \<Rightarrow> nat \<Rightarrow> jsstring" where
  "cardImgSrc post index =
     (if image_url post = []
      then js ''https://placehold.co/600x400/'' @ cardColors ! (index mod length cardColors)
             @ js ''/'' @ cardColors ! (index mod length cardColors)
      else image_url post)"

definition cardImgBlock :: "'d post \<Rightarrow> nat \<Rightarrow> lang \<Rightarrow> jsstring" where
  \<open>cardImgBlock post index lang =
     joinWith nl
       [js ''        <div class="blog-card-img">'',
        js ''          <img src="'' @ cardImgSrc post index @ js ''" alt="''
          @ escapeHtml (if image_alt post = [] then title post else image_alt post) @ js ''"/>'',
        js ''          <div class="blog-card-img-overlay"></div>'',
        js ''          <div class="blog-card-img-color"></div>'',
        js ''          <span class="blog-card-cat">'' @ catLabelOf (langs lang) (category post)
          @ js ''</span>'',
        js ''        </div>'']\<close>

definition cardBodyBlock ::
  "('d \<Rightarrow> jsstring \<Rightarrow> (jsstring \<times> jsstring) list \<Rightarrow> jsstring) \<Rightarrow> 'd post \<Rightarrow> lang \<Rightarrow> jsstring" where
  \<open>cardBodyBlock formatDate post lang =
     joinWith nl
       [js ''        <div class="blog-card-body">'',
        js ''          <div class="blog-card-date">''
          @ formatDate (date post) (locale_tag (langs lang)) (dateOptions (langs lang)) @ js ''</div>'',
        js ''          <h3 class="blog-card-title"><a href="#">'' @ escapeHtml (title post)
          @ js ''</a></h3>'',
        js ''          <p class="blog-card-excerpt">'' @ escapeHtml (excerpt post) @ js ''</p>'',
        js ''          <a href="#" class="blog-card-link">''
          @ linkOf lang (langs lang)
              (if category post = js ''podcasts'' then listenNow (langs lang) else readMore (langs lang))
          @ js ''</a>'',
        js ''        </div>'']\<close>

text \<open>The source of the image of the featured post.\<close>

definition featuredImgSrc :: "'d post \<Rightarrow> jsstring" where
  "featuredImgSrc post =
     (if image_url post = []
      then js ''https://placehold.co/800x500/'' @ featuredColor @ js ''/'' @ featuredColor
      else image_url post)"

text \<open>What escaping does to one character.\<close>

definition escapeUnit :: "jschar \<Rightarrow> jsstring" where
  "escapeUnit c =
     (if c = 0x26 then js ''&amp;''
      else if c = 0x3C then js ''&lt;''
      else if c = 0x3E then js ''&gt;''
      else if c = quote then js ''&quot;''
      else [c])"

text \<open>\<^verbatim>\<open>s.indexOf(lit)\<close>, \<open>None\<close> for -1.\<close>

definition indexOf :: "jsstring \<Rightarrow> jsstring \<Rightarrow> nat option" where
  "indexOf s lit = map_option (\<lambda>(skipped, r). length skipped) (untilMatch (afterPrefix lit) s)"

text \<open>A card with a given slug, for the examples.\<close>

definition sampleCard :: "jsstring \<Rightarrow> jsstring post" where
  "sampleCard s =
     \<lparr> title = js ''Title'', slug = s, date = js ''2025-01-23'', category = js ''team'',
       excerpt = js ''Excerpt'', image_url = [], image_alt = [], featured = False \<rparr>"

text \<open>A post read by the build script, with the time value of its date.\<close>

definition samplePost :: "jsstring \<Rightarrow> int \<Rightarrow> bool \<Rightarrow> int post" where
  "samplePost s t f =
     \<lparr> title = js ''Title'', slug = s, date = t, category = js ''team'',
       excerpt = js ''Excerpt'', image_url = [], image_alt = [], featured = f \<rparr>"

section \<open>Properties of slugify\<close>

subsection \<open>Lower-casing and the character classes\<close>

lemma upper_shift: "isUpperAscii c \<Longrightarrow> \<not> isUpperAscii (c + 0x20)"
  unfolding isUpperAscii_def by unat_arith

lemma latin_shift: "0xC0 \<le> c \<Longrightarrow> c \<le> 0xDE \<Longrightarrow> \<not> isUpperAscii (c + 0x20)"
  unfolding isUpperAscii_def by unat_arith

lemma lowerUnit_not_upper: "c \<in> set (lowerUnit d) \<Longrightarrow> \<not> isUpperAscii c"
  unfolding lowerUnit_def
  by (auto split: if_splits simp: upper_shift latin_shift) (simp_all add: isUpperAscii_def)

lemma toLowerCase_not_upper: "c \<in> set (toLowerCase s) \<Longrightarrow> \<not> isUpperAscii c"
  by (auto simp: toLowerCase_def dest: lowerUnit_not_upper)

lemma lowerUnit_slugChar: "isSlugChar c \<Longrightarrow> lowerUnit c = [c]"
  unfolding isSlugChar_def lowerUnit_def isLowerAscii_def isDigit_def isUpperAscii_def hyphen_def
  by (auto; unat_arith)

lemma toLowerCase_slugChars: "\<forall>c\<in>set s. isSlugChar c \<Longrightarrow> toLowerCase s = s"
  by (induction s) (auto simp: toLowerCase_def lowerUnit_slugChar)

lemma word_not_space: "isWordChar c \<Longrightarrow> \<not> isSpace c"
  unfolding isWordChar_def isSpace_def isLowerAscii_def isUpperAscii_def isDigit_def
  by (auto; unat_arith)

lemma word_not_hyphen: "isWordChar c \<Longrightarrow> c \<noteq> hyphen"
  unfolding isWordChar_def hyphen_def isLowerAscii_def isUpperAscii_def isDigit_def
  by (auto; unat_arith)

lemma hyphen_not_space: "\<not> isSpace hyphen"
  by (simp add: isSpace_def hyphen_def)

lemma underscore_lowerUnit: "filter (\<lambda>c. c = 0x5F) (lowerUnit c) = filter (\<lambda>c. c = 0x5F) [c]"
  unfolding lowerUnit_def isUpperAscii_def
  by (auto; unat_arith)

lemma underscore_toLowerCase:
  "filter (\<lambda>c. c = 0x5F) (toLowerCase s) = filter (\<lambda>c. c = 0x5F) s"
  by (induction s) (simp_all add: toLowerCase_def underscore_lowerUnit del: filter.simps(2), simp)

subsection \<open>The replacement steps\<close>

lemma set_replaceRuns: "set (replaceRuns P r s) \<subseteq> set r \<union> {c \<in> set s. \<not> P c}"
proof (induction P r s rule: replaceRuns.induct)
  case (1 P r)
  then show ?case by simp
next
  case (2 P r c cs)
  have "set (dropWhile P cs) \<subseteq> set cs" by (auto dest: set_dropWhileD)
  with 2 show ?case by (auto split: if_splits)
qed

lemma in_dropWhile: "c \<in> set s \<Longrightarrow> \<not> P c \<Longrightarrow> c \<in> set (dropWhile P s)"
  by (induction s) auto

lemma replaceRuns_keeps: "c \<in> set s \<Longrightarrow> \<not> P c \<Longrightarrow> c \<in> set (replaceRuns P r s)"
proof (induction P r s rule: replaceRuns.induct)
  case (1 P r)
  then show ?case by simp
next
  case (2 P r d cs)
  then show ?case by (cases "P d") (auto simp: in_dropWhile)
qed

lemma filter_dropWhile_other: "\<forall>c. Q c \<longrightarrow> \<not> P c \<Longrightarrow> filter Q (dropWhile P s) = filter Q s"
  by (induction s) auto

lemma filter_replaceRuns:
  "\<forall>c. Q c \<longrightarrow> \<not> P c \<Longrightarrow> \<forall>c\<in>set r. \<not> Q c \<Longrightarrow> filter Q (replaceRuns P r s) = filter Q s"
proof (induction P r s rule: replaceRuns.induct)
  case (1 P r)
  then show ?case by simp
next
  case (2 P r c cs)
  then show ?case by (cases "P c") (auto simp: filter_dropWhile_other)
qed

lemma replaceRuns_id: "\<forall>c\<in>set s. \<not> P c \<Longrightarrow> replaceRuns P r s = s"
  by (induction s) auto

lemma dropWhile_hd: "dropWhile P s = x # xs \<Longrightarrow> \<not> P x"
  by (metis dropWhile_eq_Cons_conv)

lemma collapse_noDouble: "noDouble (replaceRuns (\<lambda>c. c = hyphen) [hyphen] s)"
proof (induction "\<lambda>c. c = hyphen" "[hyphen]" s rule: replaceRuns.induct)
  case 1
  then show ?case by (simp add: noDouble_def)
next
  case (2 c cs)
  show ?case
  proof (cases "c = hyphen")
    case True
    let ?d = "dropWhile (\<lambda>c. c = hyphen) cs"
    have ih: "noDouble (replaceRuns (\<lambda>c. c = hyphen) [hyphen] ?d)" using 2 True by simp
    show ?thesis
    proof (cases ?d)
      case Nil
      with True show ?thesis by (simp add: noDouble_def del: dropWhile_eq_Nil_conv)
    next
      case (Cons x xs)
      then have "x \<noteq> hyphen" by (auto dest: dropWhile_hd)
      with ih Cons True show ?thesis by (simp add: noDouble_def successively_Cons)
    qed
  next
    case False
    with 2 show ?thesis
      by (cases "replaceRuns (\<lambda>c. c = hyphen) [hyphen] cs")
        (auto simp: noDouble_def successively_Cons)
  qed
qed

lemma noDouble_tl: "noDouble s \<Longrightarrow> noDouble (tl s)"
  by (cases s) (auto simp: noDouble_def successively_Cons)

lemma noDouble_hd_tl: "noDouble s \<Longrightarrow> startsWith [hyphen] s \<Longrightarrow> \<not> startsWith [hyphen] (tl s)"
  by (cases s; cases "tl s") (auto simp: noDouble_def successively_Cons)

lemma noDouble_last_butlast:
  assumes "noDouble s" "s \<noteq> []" "last s = hyphen" "butlast s \<noteq> []"
  shows "last (butlast s) \<noteq> hyphen"
proof -
  obtain xs x where s: "s = xs @ [x]" using assms(2) by (cases s rule: rev_cases) auto
  with assms show ?thesis by (auto simp: noDouble_def successively_append_iff)
qed

lemma startsWith_hd: "startsWith [c] s = (s \<noteq> [] \<and> hd s = c)"
  by (cases s) auto

lemma hd_butlast: "butlast s \<noteq> [] \<Longrightarrow> hd (butlast s) = hd s"
  by (cases s) auto

lemma trimEdge_no_lead: "noDouble s \<Longrightarrow> \<not> startsWith [hyphen] (trimEdgeHyphens s)"
  using noDouble_hd_tl [of s]
  unfolding trimEdgeHyphens_def Let_def
  by (auto simp: startsWith_hd hd_butlast)

lemma trimEdge_no_trail:
  "noDouble s \<Longrightarrow> trimEdgeHyphens s \<noteq> [] \<Longrightarrow> last (trimEdgeHyphens s) \<noteq> hyphen"
  unfolding trimEdgeHyphens_def Let_def
  by (auto simp: noDouble_last_butlast noDouble_tl split: if_splits)

lemma set_trimEdge: "set (trimEdgeHyphens s) \<subseteq> set s"
  unfolding trimEdgeHyphens_def Let_def
  by (auto dest!: in_set_butlastD dest: list.set_sel(2) simp: startsWith_hd)

lemma filter_tl_hyphen: "\<not> Q hyphen \<Longrightarrow> startsWith [hyphen] s \<Longrightarrow> filter Q (tl s) = filter Q s"
  by (cases s) auto

lemma filter_butlast_hyphen:
  "\<not> Q hyphen \<Longrightarrow> s \<noteq> [] \<Longrightarrow> last s = hyphen \<Longrightarrow> filter Q (butlast s) = filter Q s"
  by (cases s rule: rev_cases) auto

lemma filter_trimEdge: "\<not> Q hyphen \<Longrightarrow> filter Q (trimEdgeHyphens s) = filter Q s"
proof -
  assume Q: "\<not> Q hyphen"
  define s1 where "s1 = (if startsWith [hyphen] s then tl s else s)"
  have 1: "filter Q s1 = filter Q s" using Q by (simp add: s1_def filter_tl_hyphen)
  have "filter Q (if s1 \<noteq> [] \<and> last s1 = hyphen then butlast s1 else s1) = filter Q s1"
    using Q by (simp add: filter_butlast_hyphen)
  with 1 show ?thesis unfolding trimEdgeHyphens_def Let_def s1_def by simp
qed

lemma trimEdge_id: "\<not> startsWith [hyphen] s \<Longrightarrow> s = [] \<or> last s \<noteq> hyphen \<Longrightarrow> trimEdgeHyphens s = s"
  by (auto simp: trimEdgeHyphens_def)

lemma trimEdge_keeps: "c \<in> set s \<Longrightarrow> c \<noteq> hyphen \<Longrightarrow> c \<in> set (trimEdgeHyphens s)"
proof -
  assume c: "c \<in> set s" "c \<noteq> hyphen"
  have "filter (\<lambda>x. x = c) (trimEdgeHyphens s) = filter (\<lambda>x. x = c) s"
    using c(2) by (intro filter_trimEdge) simp
  moreover have "c \<in> set (filter (\<lambda>x. x = c) s)" using c(1) by simp
  ultimately have "c \<in> set (filter (\<lambda>x. x = c) (trimEdgeHyphens s))" by simp
  then show ?thesis by simp
qed

lemma trimEdge_only_hyphens:
  "noDouble s \<Longrightarrow> set s \<subseteq> {hyphen} \<Longrightarrow> trimEdgeHyphens s = []"
proof (cases s)
  case Nil
  then show ?thesis by (simp add: trimEdgeHyphens_def)
next
  case (Cons x xs)
  assume nd: "noDouble s" and sub: "set s \<subseteq> {hyphen}"
  from Cons sub have x: "x = hyphen" by simp
  show ?thesis
  proof (cases xs)
    case Nil
    with Cons x show ?thesis by (simp add: trimEdgeHyphens_def)
  next
    case (Cons y ys)
    with \<open>s = x # xs\<close> sub have "y = hyphen" by simp
    with Cons \<open>s = x # xs\<close> x nd show ?thesis by (simp add: noDouble_def)
  qed
qed

lemma slugify_take: "slugify t = take 60 (slugUntruncated t)"
  by (simp add: slugify_def slugUntruncated_def)

lemma kept_chars:
  assumes "c \<in> set (replaceRuns (\<lambda>c. c = hyphen) [hyphen]
             (replaceRuns isSpace [hyphen]
               (filter (\<lambda>c. isWordChar c \<or> isSpace c \<or> c = hyphen) (toLowerCase t))))"
  shows "isSlugChar c"
proof -
  let ?Z = "filter (\<lambda>c. isWordChar c \<or> isSpace c \<or> c = hyphen) (toLowerCase t)"
  let ?Y = "replaceRuns isSpace [hyphen] ?Z"
  from assms set_replaceRuns [of "\<lambda>c. c = hyphen" "[hyphen]" ?Y]
  have "c = hyphen \<or> c \<in> set ?Y" by auto
  with set_replaceRuns [of isSpace "[hyphen]" ?Z]
  have "c = hyphen \<or> (c \<in> set ?Z \<and> \<not> isSpace c)" by auto
  then show ?thesis
  proof
    assume "c = hyphen" then show ?thesis by (simp add: isSlugChar_def)
  next
    assume "c \<in> set ?Z \<and> \<not> isSpace c"
    then have "isWordChar c \<or> c = hyphen" and "\<not> isUpperAscii c"
      by (auto dest: toLowerCase_not_upper)
    then show ?thesis by (auto simp: isSlugChar_def isWordChar_def)
  qed
qed

lemma slugUntruncated_chars: "c \<in> set (slugUntruncated t) \<Longrightarrow> isSlugChar c"
  unfolding slugUntruncated_def using set_trimEdge kept_chars by blast

lemma slugify_chars: "c \<in> set (slugify t) \<Longrightarrow> isSlugChar c"
  unfolding slugify_take by (auto dest: in_set_takeD slugUntruncated_chars)

lemma slugUntruncated_no_lead: "\<not> startsWith [hyphen] (slugUntruncated t)"
  unfolding slugUntruncated_def by (rule trimEdge_no_lead) (rule collapse_noDouble)

lemma slugUntruncated_no_trail:
  "slugUntruncated t \<noteq> [] \<Longrightarrow> last (slugUntruncated t) \<noteq> hyphen"
  unfolding slugUntruncated_def by (rule trimEdge_no_trail) (rule collapse_noDouble)

lemma slugUntruncated_underscores:
  "filter (\<lambda>c. c = 0x5F) (slugUntruncated t) = filter (\<lambda>c. c = 0x5F) t"
proof -
  have us: "\<not> isSpace 0x5F" "(0x5F :: jschar) \<noteq> hyphen" "isWordChar 0x5F"
    by (simp_all add: isSpace_def hyphen_def isWordChar_def)
  let ?Q = "\<lambda>c :: jschar. c = 0x5F"
  let ?Z = "filter (\<lambda>c. isWordChar c \<or> isSpace c \<or> c = hyphen) (toLowerCase t)"
  let ?Y = "replaceRuns isSpace [hyphen] ?Z"
  let ?X = "replaceRuns (\<lambda>c. c = hyphen) [hyphen] ?Y"
  have "filter ?Q (trimEdgeHyphens ?X) = filter ?Q ?X"
    using us by (intro filter_trimEdge) simp
  also have "\<dots> = filter ?Q ?Y" using us by (intro filter_replaceRuns) auto
  also have "\<dots> = filter ?Q ?Z" using us by (intro filter_replaceRuns) auto
  also have "\<dots> = filter ?Q (toLowerCase t)"
    using us by (auto intro: filter_cong)
  also have "\<dots> = filter ?Q t" by (rule underscore_toLowerCase)
  finally show ?thesis by (simp add: slugUntruncated_def)
qed

lemma slugUntruncated_nonempty:
  "(slugUntruncated t \<noteq> []) = (\<exists>c\<in>set (toLowerCase t). isWordChar c)"
proof
  let ?Z = "filter (\<lambda>c. isWordChar c \<or> isSpace c \<or> c = hyphen) (toLowerCase t)"
  let ?Y = "replaceRuns isSpace [hyphen] ?Z"
  let ?X = "replaceRuns (\<lambda>c. c = hyphen) [hyphen] ?Y"
  {
    assume "\<exists>c\<in>set (toLowerCase t). isWordChar c"
    then obtain c where c: "c \<in> set (toLowerCase t)" "isWordChar c" by blast
    then have "c \<in> set ?Z" by simp
    with c have "c \<in> set ?Y" by (auto intro: replaceRuns_keeps dest: word_not_space)
    with c have "c \<in> set ?X" by (auto intro: replaceRuns_keeps dest: word_not_hyphen)
    with c have "c \<in> set (trimEdgeHyphens ?X)" by (auto intro: trimEdge_keeps dest: word_not_hyphen)
    then show "slugUntruncated t \<noteq> []" by (auto simp: slugUntruncated_def)
  }
  {
    assume ne: "slugUntruncated t \<noteq> []"
    show "\<exists>c\<in>set (toLowerCase t). isWordChar c"
    proof (rule ccontr)
      assume no: "\<not> (\<exists>c\<in>set (toLowerCase t). isWordChar c)"
      have "set ?Y \<subseteq> {hyphen}"
        using set_replaceRuns [of isSpace "[hyphen]" ?Z] no by auto
      then have "set ?X \<subseteq> {hyphen}"
        using set_replaceRuns [of "\<lambda>c. c = hyphen" "[hyphen]" ?Y] by auto
      then have "trimEdgeHyphens ?X = []"
        by (intro trimEdge_only_hyphens collapse_noDouble)
      with ne show False by (simp add: slugUntruncated_def)
    qed
  }
qed

subsection \<open>The claims about slugify\<close>

text \<open>
  Claim C10. Whatever the input, the slug has only ASCII lower-case letters, digits,
  underscores and hyphens. The slug is the first 60 code units of the untruncated slug,
  and the underscores of the untruncated slug are exactly the underscores of the input:
  none is dropped or turned into a hyphen.
\<close>

theorem slugify_alphabet:
  "(\<forall>c\<in>set (slugify t). isLowerAscii c \<or> isDigit c \<or> c = 0x5F \<or> c = hyphen)
   \<and> slugify t = take 60 (slugUntruncated t)
   \<and> filter (\<lambda>c. c = 0x5F) (slugUntruncated t) = filter (\<lambda>c. c = 0x5F) t"
  using slugify_chars [of _ t] slugify_take [of t] slugUntruncated_underscores [of t]
  unfolding isSlugChar_def by blast

text \<open>
  An input with an upper-case letter, an underscore and a space.
\<close>

theorem slugify_alphabet_witness:
  "0x5F \<in> set (slugify (js ''A_b C''))
   \<and> (isLowerAscii 0x5F \<or> isDigit 0x5F \<or> (0x5F :: jschar) = 0x5F \<or> 0x5F = hyphen)
   \<and> slugify (js ''A_b C'') = js ''a_b-c''
   \<and> filter (\<lambda>c. c = 0x5F) (slugUntruncated (js ''A_b C'')) = [0x5F]"
proof -
  have m: "0x5F \<in> set (slugify (js ''A_b C''))" by code_simp
  have v: "slugify (js ''A_b C'') = js ''a_b-c''" by code_simp
  have f: "filter (\<lambda>c. c = 0x5F) (js ''A_b C'') = [0x5F]" by code_simp
  from slugify_alphabet [of "js ''A_b C''"] m f v show ?thesis by auto
qed

text \<open>
  Claim C2, as amended. Whatever the input, the slug is the result of the six steps in
  their order; it has at most 60 code units, is its own lower-case form and does not start
  with a hyphen; it does not end with a hyphen when the untruncated slug has at most 60
  code units; and it is not empty exactly when the lower-cased input has a word
  character.
\<close>

theorem slugify_shape:
  "slugify t =
     take 60 (trimEdgeHyphens (replaceRuns (\<lambda>c. c = hyphen) [hyphen]
       (replaceRuns isSpace [hyphen]
         (filter (\<lambda>c. isWordChar c \<or> isSpace c \<or> c = hyphen) (toLowerCase t)))))
   \<and> length (slugify t) \<le> 60
   \<and> toLowerCase (slugify t) = slugify t
   \<and> \<not> startsWith [hyphen] (slugify t)
   \<and> (length (slugUntruncated t) \<le> 60 \<longrightarrow> slugify t = [] \<or> last (slugify t) \<noteq> hyphen)
   \<and> ((slugify t \<noteq> []) = (\<exists>c\<in>set (toLowerCase t). isWordChar c))"
proof (intro conjI)
  show "slugify t =
     take 60 (trimEdgeHyphens (replaceRuns (\<lambda>c. c = hyphen) [hyphen]
       (replaceRuns isSpace [hyphen]
         (filter (\<lambda>c. isWordChar c \<or> isSpace c \<or> c = hyphen) (toLowerCase t)))))"
    by (simp add: slugify_def)
  show "length (slugify t) \<le> 60" by (simp add: slugify_def)
  show "toLowerCase (slugify t) = slugify t"
    by (rule toLowerCase_slugChars) (auto dest: slugify_chars)
  show "\<not> startsWith [hyphen] (slugify t)"
    using slugUntruncated_no_lead [of t]
    by (cases "slugUntruncated t") (auto simp: slugify_take startsWith_hd)
  show "length (slugUntruncated t) \<le> 60 \<longrightarrow> slugify t = [] \<or> last (slugify t) \<noteq> hyphen"
    using slugUntruncated_no_trail [of t] by (auto simp: slugify_take)
  show "(slugify t \<noteq> []) = (\<exists>c\<in>set (toLowerCase t). isWordChar c)"
    using slugUntruncated_nonempty [of t] by (simp add: slugify_take)
qed

text \<open>
  The title of the specification's example satisfies the hypothesis on the length, and
  its slug ends with no hyphen.
\<close>

theorem slugify_shape_witness:
  "length (slugUntruncated (js ''Tel Aviv's Market: Up 12%!'')) \<le> 60
   \<and> last (slugify (js ''Tel Aviv's Market: Up 12%!'')) \<noteq> hyphen
   \<and> slugify (js ''Tel Aviv's Market: Up 12%!'') = js ''tel-avivs-market-up-12''"
proof -
  have l: "length (slugUntruncated (js ''Tel Aviv's Market: Up 12%!'')) \<le> 60" by code_simp
  have v: "slugify (js ''Tel Aviv's Market: Up 12%!'') = js ''tel-avivs-market-up-12''" by code_simp
  have n: "js ''tel-avivs-market-up-12'' \<noteq> []" by code_simp
  from slugify_shape [of "js ''Tel Aviv's Market: Up 12%!''"] l
  have "slugify (js ''Tel Aviv's Market: Up 12%!'') = []
        \<or> last (slugify (js ''Tel Aviv's Market: Up 12%!'')) \<noteq> hyphen" by blast
  with l v n show ?thesis by simp
qed

text \<open>
  Claim C2 as stated fails: an input with no word character has the empty slug.
\<close>

theorem slugify_empty_counterexample: "slugify (js ''?!'') = []"
  by code_simp

text \<open>
  Claim C3 fails on the code. For 59 letters, a space and a letter, the untruncated slug
  has 61 code units and the cut falls right after the hyphen; slugifying the slug again
  trims that hyphen.
\<close>

theorem slugify_not_idempotent:
  "slugify (replicate 59 0x61 @ js '' b'') = replicate 59 0x61 @ [hyphen]
   \<and> slugify (slugify (replicate 59 0x61 @ js '' b'')) = replicate 59 0x61
   \<and> slugify (slugify (replicate 59 0x61 @ js '' b'')) \<noteq> slugify (replicate 59 0x61 @ js '' b'')"
  by code_simp

text \<open>
  The hyphen that the cut can leave at the end is the only obstacle: a slug that does
  not end with a hyphen is its own slug.
\<close>

lemma noDouble_take: "noDouble s \<Longrightarrow> noDouble (take n s)"
  using successively_append_iff [of "\<lambda>a b. \<not> (a = hyphen \<and> b = hyphen)" "take n s" "drop n s"]
  by (simp add: noDouble_def)

lemma noDouble_butlast: "noDouble s \<Longrightarrow> noDouble (butlast s)"
  by (simp add: butlast_conv_take noDouble_take)

lemma noDouble_trimEdge: "noDouble s \<Longrightarrow> noDouble (trimEdgeHyphens s)"
  by (auto simp: trimEdgeHyphens_def Let_def noDouble_tl noDouble_butlast)
    (simp add: noDouble_def)+

lemma collapse_id: "noDouble s \<Longrightarrow> replaceRuns (\<lambda>c. c = hyphen) [hyphen] s = s"
proof (induction s)
  case Nil
  then show ?case by simp
next
  case (Cons c cs)
  then have nd: "noDouble cs" by (cases cs) (auto simp: noDouble_def successively_Cons)
  show ?case
  proof (cases "c = hyphen")
    case True
    with Cons.prems have "dropWhile (\<lambda>c. c = hyphen) cs = cs"
      by (cases cs) (auto simp: noDouble_def successively_Cons)
    with True Cons.IH nd show ?thesis by simp
  next
    case False
    with Cons.IH nd show ?thesis by simp
  qed
qed

lemma slugify_noDouble: "noDouble (slugify t)"
  unfolding slugify_def by (intro noDouble_take noDouble_trimEdge collapse_noDouble)

lemma slugChar_kept: "isSlugChar c \<Longrightarrow> (isWordChar c \<or> isSpace c \<or> c = hyphen) \<and> \<not> isSpace c"
  unfolding isSlugChar_def isWordChar_def isSpace_def isLowerAscii_def isDigit_def hyphen_def
  by (auto; unat_arith)

lemma slugify_idempotent_if:
  assumes "slugify x = [] \<or> last (slugify x) \<noteq> hyphen"
  shows "slugify (slugify x) = slugify x"
proof -
  let ?s = "slugify x"
  have chars: "\<forall>c\<in>set ?s. isSlugChar c" by (auto dest: slugify_chars)
  have "toLowerCase ?s = ?s" using chars by (rule toLowerCase_slugChars)
  moreover have "filter (\<lambda>c. isWordChar c \<or> isSpace c \<or> c = hyphen) ?s = ?s"
    using chars by (auto simp: filter_id_conv dest: slugChar_kept)
  moreover have "replaceRuns isSpace [hyphen] ?s = ?s"
    using chars by (intro replaceRuns_id) (auto dest: slugChar_kept)
  moreover have "replaceRuns (\<lambda>c. c = hyphen) [hyphen] ?s = ?s"
    by (intro collapse_id slugify_noDouble)
  moreover have "\<not> startsWith [hyphen] ?s"
    using slugUntruncated_no_lead [of x]
    by (cases "slugUntruncated x") (auto simp: slugify_take startsWith_hd)
  then have "trimEdgeHyphens ?s = ?s" using assms by (intro trimEdge_id)
  moreover have "take 60 ?s = ?s" by (simp add: slugify_def)
  ultimately show ?thesis by (simp add: slugify_def [of ?s])
qed

section \<open>Properties of decodeEntities\<close>

subsection \<open>Searching\<close>

lemma firstMatch_Nil: "firstMatch m [] = m []"
  by (cases "m []") (simp_all add: firstMatch_def)

lemma firstMatch_Cons:
  "firstMatch m (c # cs) = (case m (c # cs) of Some r \<Rightarrow> Some r | None \<Rightarrow> firstMatch m cs)"
  by (cases "m (c # cs)"; cases "untilMatch m cs") (auto simp: firstMatch_def)

lemma matches_Cons: "matches m (c # cs) = (m (c # cs) \<noteq> None \<or> matches m cs)"
  by (cases "m (c # cs)") (simp_all add: matches_def firstMatch_Cons)

lemma startsWith_length: "startsWith p s \<Longrightarrow> length p \<le> length s"
  by (induction p s rule: startsWith.induct) auto

lemma afterPrefix_Some: "(afterPrefix p s \<noteq> None) = startsWith p s"
  by (simp add: afterPrefix_def)

lemma afterPrefix_length: "afterPrefix p s = Some r \<Longrightarrow> length r + length p = length s"
  by (auto simp: afterPrefix_def split: if_splits dest: startsWith_length)

subsection \<open>Every replacement step shortens the text it changes\<close>

lemma numericRef_length: "numericRef s = Some (n, rest) \<Longrightarrow> length rest + 4 \<le> length s"
proof -
  assume a: "numericRef s = Some (n, rest)"
  then obtain r where r: "afterPrefix (js ''&#'') s = Some r"
    and rest: "afterPrefix (js '';'') (dropWhile isDigit r) = Some rest"
    and n: "takeWhile isDigit r \<noteq> []"
    by (auto simp: numericRef_def split: bind_splits if_splits)
  from r have 1: "length r + 2 = length s" by (auto dest: afterPrefix_length simp: js_def)
  from rest have 2: "length rest + 1 = length (dropWhile isDigit r)"
    by (auto dest: afterPrefix_length simp: js_def)
  have 3: "length (takeWhile isDigit r) + length (dropWhile isDigit r) = length r"
    by (metis length_append takeWhile_dropWhile_id)
  from n have "1 \<le> length (takeWhile isDigit r)" by (cases "takeWhile isDigit r") auto
  with 1 2 3 show ?thesis by linarith
qed

lemma decodeNumeric_length: "length (decodeNumeric s) \<le> length s"
proof (induction s rule: decodeNumeric.induct)
  case 1
  then show ?case by simp
next
  case (2 c cs)
  show ?case
  proof (cases "numericRef (c # cs)")
    case None
    with 2 show ?thesis by simp
  next
    case (Some a)
    obtain n rest where a: "a = (n, rest)" by (cases a)
    from Some a have l: "length rest + 4 \<le> length (c # cs)" by (auto dest: numericRef_length)
    then have "length rest < length (c # cs)" by simp
    with 2(2) Some a have "length (decodeNumeric rest) \<le> length rest" by simp
    with l Some a show ?thesis by simp
  qed
qed

lemma decodeNumeric_shrinks: "matches numericRef s \<Longrightarrow> length (decodeNumeric s) < length s"
proof (induction s rule: decodeNumeric.induct)
  case 1
  then show ?case by (simp add: matches_def firstMatch_Nil numericRef_def afterPrefix_def js_def)
next
  case (2 c cs)
  show ?case
  proof (cases "numericRef (c # cs)")
    case None
    with 2 show ?thesis by (simp add: matches_Cons)
  next
    case (Some a)
    obtain n rest where a: "a = (n, rest)" by (cases a)
    from Some a have "length rest + 4 \<le> length (c # cs)" by (auto dest: numericRef_length)
    moreover have "length (decodeNumeric rest) \<le> length rest" by (rule decodeNumeric_length)
    ultimately show ?thesis using Some a by simp
  qed
qed

lemma decodeNumeric_id: "\<not> matches numericRef s \<Longrightarrow> decodeNumeric s = s"
proof (induction s)
  case Nil
  then show ?case by simp
next
  case (Cons c cs)
  then have "numericRef (c # cs) = None" and "decodeNumeric cs = cs"
    by (cases "numericRef (c # cs)"; simp add: matches_Cons)+
  then show ?case by simp
qed

lemma replaceAll_length:
  "length rep \<le> length pat \<Longrightarrow> length (replaceAll pat rep s) \<le> length s"
proof (induction pat rep s rule: replaceAll.induct)
  case (1 pat rep)
  then show ?case by simp
next
  case (2 pat rep c cs)
  show ?case
  proof (cases "pat \<noteq> [] \<and> startsWith pat (c # cs)")
    case True
    then have "length pat \<le> length (c # cs)" by (auto dest: startsWith_length)
    moreover have "length (replaceAll pat rep (drop (length pat) (c # cs)))
                     \<le> length (c # cs) - length pat"
      using 2(1) [OF True 2(3)] by simp
    ultimately show ?thesis using True 2(3) by simp
  next
    case False
    with 2 show ?thesis by auto
  qed
qed

lemma replaceAll_shrinks:
  "length rep < length pat \<Longrightarrow> matches (afterPrefix pat) s
     \<Longrightarrow> length (replaceAll pat rep s) < length s"
proof (induction pat rep s rule: replaceAll.induct)
  case (1 pat rep)
  then show ?case by (auto simp: matches_def firstMatch_Nil afterPrefix_def split: if_splits elim: startsWith.elims)
next
  case (2 pat rep c cs)
  show ?case
  proof (cases "startsWith pat (c # cs)")
    case True
    have "length (replaceAll pat rep (drop (length pat) (c # cs))) \<le> length (c # cs) - length pat"
      using replaceAll_length [of rep pat "drop (length pat) (c # cs)"] 2(3) by simp
    moreover from True have "length pat \<le> length (c # cs)" by (rule startsWith_length)
    ultimately show ?thesis using True 2(3) by auto
  next
    case False
    with 2 show ?thesis by (auto simp: matches_Cons afterPrefix_def)
  qed
qed

lemma replaceAll_id: "\<not> matches (afterPrefix pat) s \<Longrightarrow> replaceAll pat rep s = s"
  by (induction s) (auto simp: matches_Cons afterPrefix_def)

lemma fold_id:
  "\<not> list_ex (\<lambda>(pat, rep). matches (afterPrefix pat) s) tbl
     \<Longrightarrow> foldl (\<lambda>s (pat, rep). replaceAll pat rep s) s tbl = s"
  by (induction tbl) (auto simp: replaceAll_id)

lemma fold_length:
  "\<forall>(pat, rep)\<in>set tbl. length rep < length pat
     \<Longrightarrow> length (foldl (\<lambda>s (pat, rep). replaceAll pat rep s) s tbl) \<le> length s"
proof (induction tbl arbitrary: s)
  case Nil
  then show ?case by simp
next
  case (Cons e tbl)
  obtain pat rep where e: "e = (pat, rep)" by (cases e)
  with Cons.prems have "length (replaceAll pat rep s) \<le> length s"
    by (intro replaceAll_length) simp
  moreover have "length (foldl (\<lambda>s (pat, rep). replaceAll pat rep s) (replaceAll pat rep s) tbl)
                   \<le> length (replaceAll pat rep s)"
    using Cons.prems by (intro Cons.IH) simp
  ultimately show ?case using e by simp
qed

lemma fold_shrinks:
  "\<forall>(pat, rep)\<in>set tbl. length rep < length pat
     \<Longrightarrow> list_ex (\<lambda>(pat, rep). matches (afterPrefix pat) s) tbl
     \<Longrightarrow> length (foldl (\<lambda>s (pat, rep). replaceAll pat rep s) s tbl) < length s"
proof (induction tbl arbitrary: s)
  case Nil
  then show ?case by simp
next
  case (Cons e tbl)
  obtain pat rep where e: "e = (pat, rep)" by (cases e)
  from Cons.prems(1) e have lt: "length rep < length pat"
    and rest: "\<forall>(pat, rep)\<in>set tbl. length rep < length pat" by auto
  show ?case
  proof (cases "matches (afterPrefix pat) s")
    case True
    with lt have "length (replaceAll pat rep s) < length s" by (rule replaceAll_shrinks)
    moreover have "length (foldl (\<lambda>s (pat, rep). replaceAll pat rep s) (replaceAll pat rep s) tbl)
                     \<le> length (replaceAll pat rep s)"
      using rest by (rule fold_length)
    ultimately show ?thesis using e by simp
  next
    case False
    then have "replaceAll pat rep s = s" by (rule replaceAll_id)
    moreover from False Cons.prems(2) e
    have "list_ex (\<lambda>(pat, rep). matches (afterPrefix pat) s) tbl" by simp
    ultimately show ?thesis using Cons.IH [OF rest] e by simp
  qed
qed

lemma namedEntities_shorter: "\<forall>(pat, rep)\<in>set namedEntities. length rep < length pat"
  by (simp add: namedEntities_def js_def)

subsection \<open>The claim about decodeEntities\<close>

text \<open>
  Claim C4, as amended. A second pass of decodeEntities changes nothing exactly when the
  first pass has left no reference of the table: no numeric reference and none of the
  eighteen named ones.
\<close>

theorem decodeEntities_twice:
  "(decodeEntities (decodeEntities x) = decodeEntities x) = (\<not> hasReference (decodeEntities x))"
proof (cases "hasReference (decodeEntities x)")
  case False
  then have "\<not> matches numericRef (decodeEntities x)"
    and "\<not> list_ex (\<lambda>(pat, rep). matches (afterPrefix pat) (decodeEntities x)) namedEntities"
    by (simp_all add: hasReference_def)
  then have "decodeEntities (decodeEntities x) = decodeEntities x"
    by (simp add: decodeEntities_def [of "decodeEntities x"] decodeNumeric_id fold_id)
  with False show ?thesis by simp
next
  case True
  let ?y = "decodeEntities x"
  have "length (decodeEntities ?y) < length ?y"
  proof (cases "matches numericRef ?y")
    case True
    then have "length (decodeNumeric ?y) < length ?y" by (rule decodeNumeric_shrinks)
    moreover have "length (decodeEntities ?y) \<le> length (decodeNumeric ?y)"
      unfolding decodeEntities_def [of ?y] using namedEntities_shorter by (rule fold_length)
    ultimately show ?thesis by simp
  next
    case False
    with True have "list_ex (\<lambda>(pat, rep). matches (afterPrefix pat) ?y) namedEntities"
      by (simp add: hasReference_def)
    with namedEntities_shorter
    have "length (foldl (\<lambda>s (pat, rep). replaceAll pat rep s) ?y namedEntities) < length ?y"
      by (rule fold_shrinks)
    with False show ?thesis by (simp add: decodeEntities_def [of ?y] decodeNumeric_id)
  qed
  with True show ?thesis by auto
qed

text \<open>
  A text with a named reference, a doubly encoded one and a numeric one, all gone after
  one pass.
\<close>

theorem decodeEntities_twice_witness:
  "\<not> hasReference (decodeEntities (js ''Isra&euml;l &amp;lt; &#1513;''))
   \<and> decodeEntities (decodeEntities (js ''Isra&euml;l &amp;lt; &#1513;''))
       = decodeEntities (js ''Isra&euml;l &amp;lt; &#1513;'')
   \<and> decodeEntities (js ''Isra&euml;l &amp;lt; &#1513;'') = js ''Isra'' @ [0xEB] @ js ''l < '' @ [0x5E9]"
proof -
  have h: "\<not> hasReference (decodeEntities (js ''Isra&euml;l &amp;lt; &#1513;''))" by code_simp
  have v: "decodeEntities (js ''Isra&euml;l &amp;lt; &#1513;'') = js ''Isra'' @ [0xEB] @ js ''l < '' @ [0x5E9]"
    by code_simp
  from decodeEntities_twice [of "js ''Isra&euml;l &amp;lt; &#1513;''"] h v show ?thesis by blast
qed

text \<open>
  Claim C4 as stated fails: the pass turns the first five characters of
  \<^verbatim>\<open>&amp;amp;\<close> into an ampersand, which forms a new reference with the rest, and a
  second pass decodes that one.
\<close>

theorem decodeEntities_not_idempotent:
  "decodeEntities (js ''&amp;amp;'') = js ''&amp;''
   \<and> decodeEntities (decodeEntities (js ''&amp;amp;'')) = js ''&''
   \<and> decodeEntities (decodeEntities (js ''&amp;amp;'')) \<noteq> decodeEntities (js ''&amp;amp;'')"
  by code_simp

section \<open>Properties of the date grammars\<close>

lemma defaultMonth:
  "map_of table key = None \<Longrightarrow> inherited key = Undefined
     \<Longrightarrow> toStr (orElse (getProperty table key) (Str (js ''01''))) = js ''01''"
  by (simp add: getProperty_def orElse_def truthy_def toStr_def)

text \<open>
  Claim C7, as amended. In each of the three grammars, when the text splits into exactly
  three tokens and the month token (lower-cased for English and French, as it is for
  Hebrew) is neither a key of the month table nor the name of a property that the table
  inherits from \<^verbatim>\<open>Object.prototype\<close>, the month is \<^verbatim>\<open>01\<close>. When the text does not
  split into exactly three tokens, parseEnDate returns its argument as it is, and
  parseFrDate and parseHeDate return the decoded text without the white space around it.
\<close>

theorem parse_fallbacks:
  "(splitBy spaceRun (remove1 0x2C (trim d)) = [p0, p1, p2]
      \<longrightarrow> map_of enMonths (toLowerCase p0) = None \<longrightarrow> inherited (toLowerCase p0) = Undefined
      \<longrightarrow> parseEnDate d = p2 @ js ''-'' @ js ''01'' @ js ''-'' @ padStart2 p1)
   \<and> (length (splitBy spaceRun (remove1 0x2C (trim d))) \<noteq> 3 \<longrightarrow> parseEnDate d = d)
   \<and> (splitBy oneSpace (trim (decodeEntities d)) = [p0, p1, p2]
      \<longrightarrow> map_of frMonths (toLowerCase p1) = None \<longrightarrow> inherited (toLowerCase p1) = Undefined
      \<longrightarrow> parseFrDate d = p2 @ js ''-'' @ js ''01'' @ js ''-'' @ padStart2 p0)
   \<and> (length (splitBy oneSpace (trim (decodeEntities d))) \<noteq> 3
      \<longrightarrow> parseFrDate d = trim (decodeEntities d))
   \<and> (splitBy oneSpace (trim (decodeEntities d)) = [p0, p1, p2]
      \<longrightarrow> map_of heMonths p1 = None \<longrightarrow> inherited p1 = Undefined
      \<longrightarrow> parseHeDate d = p2 @ js ''-'' @ js ''01'' @ js ''-'' @ padStart2 p0)
   \<and> (length (splitBy oneSpace (trim (decodeEntities d))) \<noteq> 3
      \<longrightarrow> parseHeDate d = trim (decodeEntities d))"
proof (intro conjI impI)
  assume "splitBy spaceRun (remove1 0x2C (trim d)) = [p0, p1, p2]"
    and "map_of enMonths (toLowerCase p0) = None" and "inherited (toLowerCase p0) = Undefined"
  then show "parseEnDate d = p2 @ js ''-'' @ js ''01'' @ js ''-'' @ padStart2 p1"
    by (simp add: parseEnDate_def defaultMonth)
next
  assume "length (splitBy spaceRun (remove1 0x2C (trim d))) \<noteq> 3"
  then show "parseEnDate d = d"
    by (auto simp: parseEnDate_def split: list.splits)
next
  assume "splitBy oneSpace (trim (decodeEntities d)) = [p0, p1, p2]"
    and "map_of frMonths (toLowerCase p1) = None" and "inherited (toLowerCase p1) = Undefined"
  then show "parseFrDate d = p2 @ js ''-'' @ js ''01'' @ js ''-'' @ padStart2 p0"
    by (simp add: parseFrDate_def defaultMonth)
next
  assume "length (splitBy oneSpace (trim (decodeEntities d))) \<noteq> 3"
  then show "parseFrDate d = trim (decodeEntities d)"
    by (auto simp: parseFrDate_def Let_def split: list.splits)
next
  assume "splitBy oneSpace (trim (decodeEntities d)) = [p0, p1, p2]"
    and "map_of heMonths p1 = None" and "inherited p1 = Undefined"
  then show "parseHeDate d = p2 @ js ''-'' @ js ''01'' @ js ''-'' @ padStart2 p0"
    by (simp add: parseHeDate_def defaultMonth)
next
  assume "length (splitBy oneSpace (trim (decodeEntities d))) \<noteq> 3"
  then show "parseHeDate d = trim (decodeEntities d)"
    by (auto simp: parseHeDate_def Let_def split: list.splits)
qed

text \<open>
  One text for each of the six cases.
\<close>

theorem parse_fallbacks_witness:
  "parseEnDate (js ''Sol 5, 2025'') = js ''2025-01-05''
   \<and> parseFrDate (js ''5 brumaire 2025'') = js ''2025-01-05''
   \<and> parseHeDate (js ''5 January 2025'') = js ''2025-01-05''
   \<and> parseEnDate (js ''Early 2025'') = js ''Early 2025''
   \<and> parseFrDate (js '' d&eacute;but 2025 '') = js ''d'' @ [0xE9] @ js ''but 2025''
   \<and> parseHeDate (js ''2025'') = js ''2025''"
proof -
  have e1: "splitBy spaceRun (remove1 0x2C (trim (js ''Sol 5, 2025''))) = [js ''Sol'', js ''5'', js ''2025'']"
    and e2: "map_of enMonths (toLowerCase (js ''Sol'')) = None"
    and e3: "inherited (toLowerCase (js ''Sol'')) = Undefined"
    and e4: "js ''2025'' @ js ''-'' @ js ''01'' @ js ''-'' @ padStart2 (js ''5'') = js ''2025-01-05''"
    by code_simp+
  have f1: "splitBy oneSpace (trim (decodeEntities (js ''5 brumaire 2025''))) = [js ''5'', js ''brumaire'', js ''2025'']"
    and f2: "map_of frMonths (toLowerCase (js ''brumaire'')) = None"
    and f3: "inherited (toLowerCase (js ''brumaire'')) = Undefined"
    by code_simp+
  have h1: "splitBy oneSpace (trim (decodeEntities (js ''5 January 2025''))) = [js ''5'', js ''January'', js ''2025'']"
    and h2: "map_of heMonths (js ''January'') = None"
    and h3: "inherited (js ''January'') = Undefined"
    by code_simp+
  have n1: "length (splitBy spaceRun (remove1 0x2C (trim (js ''Early 2025'')))) \<noteq> 3"
    and n2: "length (splitBy oneSpace (trim (decodeEntities (js '' d&eacute;but 2025 '')))) \<noteq> 3"
    and n3: "length (splitBy oneSpace (trim (decodeEntities (js ''2025'')))) \<noteq> 3"
    and d2: "trim (decodeEntities (js '' d&eacute;but 2025 '')) = js ''d'' @ [0xE9] @ js ''but 2025''"
    and d3: "trim (decodeEntities (js ''2025'')) = js ''2025''"
    by code_simp+
  from parse_fallbacks [of "js ''Sol 5, 2025''" "js ''Sol''" "js ''5''" "js ''2025''"] e1 e2 e3 e4
  have 1: "parseEnDate (js ''Sol 5, 2025'') = js ''2025-01-05''" by simp
  from parse_fallbacks [of "js ''5 brumaire 2025''" "js ''5''" "js ''brumaire''" "js ''2025''"] f1 f2 f3 e4
  have 2: "parseFrDate (js ''5 brumaire 2025'') = js ''2025-01-05''" by simp
  from parse_fallbacks [of "js ''5 January 2025''" "js ''5''" "js ''January''" "js ''2025''"] h1 h2 h3 e4
  have 3: "parseHeDate (js ''5 January 2025'') = js ''2025-01-05''" by simp
  from parse_fallbacks [of "js ''Early 2025''"] n1
  have 4: "parseEnDate (js ''Early 2025'') = js ''Early 2025''" by blast
  from parse_fallbacks [of "js '' d&eacute;but 2025 ''"] n2 d2
  have 5: "parseFrDate (js '' d&eacute;but 2025 '') = js ''d'' @ [0xE9] @ js ''but 2025''" by simp
  from parse_fallbacks [of "js ''2025''"] n3 d3
  have 6: "parseHeDate (js ''2025'') = js ''2025''" by simp
  from 1 2 3 4 5 6 show ?thesis by blast
qed

text \<open>
  Claim C7 as stated fails in both parts. A month token that names an inherited property
  is in no month table, and the month printed is that property. And a text of one token
  with a numeric reference and a space at its end, whose decoded form keeps the space,
  comes back undecoded from parseEnDate, and decoded but without the space from the other
  two.
\<close>

theorem parse_fallbacks_counterexample:
  "js ''__proto__'' \<notin> set (map fst enMonths)
   \<and> parseEnDate (js ''__proto__ 5, 2025'') = js ''2025-[object Object]-05''
   \<and> js ''constructor'' \<notin> set (map fst frMonths)
   \<and> parseFrDate (js ''5 Constructor 2025'') = js ''2025-function Object() { [native code] }-05''
   \<and> js ''valueOf'' \<notin> set (map fst heMonths)
   \<and> parseHeDate (js ''5 valueOf 2025'') = js ''2025-function valueOf() { [native code] }-05''
   \<and> decodeEntities (js ''&#50;025 '') = js ''2025 ''
   \<and> parseEnDate (js ''&#50;025 '') = js ''&#50;025 ''
   \<and> parseFrDate (js ''&#50;025 '') = js ''2025''
   \<and> parseHeDate (js ''&#50;025 '') = js ''2025''"
  by code_simp

section \<open>Properties of the migration run\<close>

subsection \<open>A page without the featured block\<close>

lemma firstMatch_None_mono:
  "(\<And>t. m' t = None \<Longrightarrow> m t = None) \<Longrightarrow> \<not> matches m' s \<Longrightarrow> firstMatch m s = None"
proof (induction s)
  case Nil
  then show ?case by (simp add: matches_def firstMatch_Nil)
next
  case (Cons c cs)
  then have "m' (c # cs) = None" and "\<not> matches m' cs" by (simp_all add: matches_Cons)
  with Cons show ?case by (simp add: firstMatch_Cons)
qed

lemma featuredRe_needs_opening:
  \<open>afterPrefix (js ''<div class="featured-post reveal"'') t = None \<Longrightarrow> featuredRe t = None\<close>
  by (simp add: featuredRe_def)

lemma extractFeatured_None:
  \<open>\<not> includesStr html (js ''<div class="featured-post reveal"'') \<Longrightarrow> extractFeatured html lang = None\<close>
proof -
  assume \<open>\<not> includesStr html (js ''<div class="featured-post reveal"'')\<close>
  then have \<open>\<not> matches (afterPrefix (js ''<div class="featured-post reveal"'')) html\<close>
    by (simp add: includesStr_def matches_def)
  then have "firstMatch featuredRe html = None"
    by (rule firstMatch_None_mono [rotated]) (rule featuredRe_needs_opening)
  then show ?thesis by (simp add: extractFeatured_def)
qed

lemma migrateLang_present:
  "fs (files lang) = Some html \<Longrightarrow> \<exists>out'. migrateLang fs enSlugs lang out = Inr out'"
  by (simp add: migrateLang_def Let_def)

lemma langLoop_completes:
  "\<forall>lang\<in>set langs'. fs (files lang) \<noteq> None \<Longrightarrow> snd (langLoop fs enSlugs langs' out) = None"
proof (induction langs' arbitrary: out)
  case Nil
  then show ?case by simp
next
  case (Cons lang rest)
  then obtain html where "fs (files lang) = Some html" by auto
  then obtain out' where "migrateLang fs enSlugs lang out = Inr out'"
    using migrateLang_present by blast
  with Cons show ?case by simp
qed

lemma migrate_completes:
  assumes "\<forall>lang. fs (files lang) \<noteq> None"
    and "extractFeatured (the (fs (files En))) En \<noteq> None"
  shows "snd (migrate fs) = None"
proof -
  from assms(1) obtain enHtml where en: "fs (files En) = Some enHtml" by auto
  with assms(2) obtain f where f: "extractFeatured enHtml En = Some f" by auto
  have "snd (langLoop fs (slug f # map slug (extractCards enHtml En)) [En, Fr, He] []) = None"
    using assms(1) by (intro langLoop_completes) simp
  with en f show ?thesis by (simp add: migrate_def del: langLoop.simps)
qed

text \<open>
  Claim C6 fails on the code for the English page. A page without the opening marker of
  the featured block gives \<^verbatim>\<open>null\<close>, as the claim says; but the run reads
  \<^verbatim>\<open>enFeatured.slug\<close> without a test, so for the English page it stops with a TypeError
  before anything is written. (In the loop the test \<^verbatim>\<open>if (featured)\<close> is there: by
  \<open>migrate_completes\<close> the run ends without an error when the three pages exist and the
  English one has its featured block, whatever the other two lack.)
\<close>

theorem migrate_en_featured_missing:
  assumes \<open>fs (files En) = Some enHtml\<close>
    and \<open>\<not> includesStr enHtml (js ''<div class="featured-post reveal"'')\<close>
  shows "extractFeatured enHtml lang = None \<and> migrate fs = ([], Some TypeError)"
proof
  show "extractFeatured enHtml lang = None"
    using assms(2) by (rule extractFeatured_None)
  have null: "extractFeatured enHtml En = None"
    using assms(2) by (rule extractFeatured_None)
  have "migrate fs = (case extractFeatured enHtml En of
                        None \<Rightarrow> ([], Some TypeError)
                      | Some f \<Rightarrow> langLoop fs (slug f # map slug (extractCards enHtml En)) [En, Fr, He] [])"
    using assms(1) by (simp add: migrate_def Let_def del: langLoop.simps)
  with null show "migrate fs = ([], Some TypeError)" by simp
qed

text \<open>
  An English page with a grid comment and no featured block.
\<close>

theorem migrate_en_featured_missing_witness:
  \<open>migrate (\<lambda>file. Some (js ''<section><!-- Blog Grid --></section>'')) = ([], Some TypeError)\<close>
proof -
  have \<open>\<not> includesStr (js ''<section><!-- Blog Grid --></section>'') (js ''<div class="featured-post reveal"'')\<close>
    by code_simp
  with migrate_en_featured_missing [of "\<lambda>file. Some (js ''<section><!-- Blog Grid --></section>'')" "js ''<section><!-- Blog Grid --></section>''"]
  show ?thesis by simp
qed

subsection \<open>The canonical slugs\<close>

lemma cardLoop_unfold:
  "cardLoop lang enSlugs cards i out =
     (take i cards
        @ map (\<lambda>(j, c). c\<lparr>slug := canonicalOr enSlugs (j + 1) (slug c)\<rparr>) (enumerate i (drop i cards)),
      out @ map (\<lambda>(j, c). writeFile lang (c\<lparr>slug := canonicalOr enSlugs (j + 1) (slug c)\<rparr>))
              (enumerate i (drop i cards)))"
proof (induction lang enSlugs cards i out rule: cardLoop.induct)
  case (1 lang enSlugs cards i out)
  show ?case
  proof (cases "i < length cards")
    case False
    then show ?thesis by (simp add: cardLoop.simps [of lang enSlugs cards i out])
  next
    case True
    define card where "card = (cards ! i)\<lparr>slug := canonicalOr enSlugs (i + 1) (slug (cards ! i))\<rparr>"
    have d: "drop i cards = cards ! i # drop (Suc i) cards"
      using True by (simp add: Cons_nth_drop_Suc)
    have t: "take (Suc i) (cards[i := card]) = take i cards @ [card]"
      using True by (simp add: take_Suc_conv_app_nth)
    have d2: "drop (Suc i) (cards[i := card]) = drop (Suc i) cards" by simp
    have "cardLoop lang enSlugs cards i out
            = cardLoop lang enSlugs (cards[i := card]) (i + 1) (out @ [writeFile lang card])"
      using True by (simp add: cardLoop.simps [of lang enSlugs cards i out] card_def Let_def)
    also have "\<dots> =
       (take (i + 1) (cards[i := card])
          @ map (\<lambda>(j, c). c\<lparr>slug := canonicalOr enSlugs (j + 1) (slug c)\<rparr>)
              (enumerate (i + 1) (drop (i + 1) (cards[i := card]))),
        (out @ [writeFile lang card])
          @ map (\<lambda>(j, c). writeFile lang (c\<lparr>slug := canonicalOr enSlugs (j + 1) (slug c)\<rparr>))
              (enumerate (i + 1) (drop (i + 1) (cards[i := card]))))"
      using "1.IH" [OF True card_def] .
    also have "\<dots> =
       (take i cards
          @ map (\<lambda>(j, c). c\<lparr>slug := canonicalOr enSlugs (j + 1) (slug c)\<rparr>) (enumerate i (drop i cards)),
        out @ map (\<lambda>(j, c). writeFile lang (c\<lparr>slug := canonicalOr enSlugs (j + 1) (slug c)\<rparr>))
                (enumerate i (drop i cards)))"
      using t d2 by (simp add: d card_def)
    finally show ?thesis .
  qed
qed

lemma cardLoop_cards:
  "fst (cardLoop lang enSlugs cards 0 out)
     = map (\<lambda>(j, c). c\<lparr>slug := canonicalOr enSlugs (j + 1) (slug c)\<rparr>) (enumerate 0 cards)"
  by (simp add: cardLoop_unfold)

lemma cardLoop_nth:
  "i < length cards \<Longrightarrow>
     fst (cardLoop lang enSlugs cards 0 out) ! i
       = (cards ! i)\<lparr>slug := canonicalOr enSlugs (i + 1) (slug (cards ! i))\<rparr>"
  by (simp add: cardLoop_cards nth_enumerate_eq)

lemma cardLoop_written:
  "snd (cardLoop lang enSlugs cards 0 out)
     = out @ map (writeFile lang) (fst (cardLoop lang enSlugs cards 0 out))"
  by (simp add: cardLoop_unfold comp_def case_prod_unfold)

lemma canonicalOr_take:
  "i < n \<Longrightarrow> canonicalOr (take n enSlugs) i own = canonicalOr enSlugs i own"
  by (simp add: canonicalOr_def nthOpt_def)

lemma cardLoop_take:
  "cardLoop lang (take (length cards + 1) enSlugs) cards 0 out = cardLoop lang enSlugs cards 0 out"
proof -
  have "\<forall>(j, c)\<in>set (enumerate 0 cards).
          canonicalOr (take (length cards + 1) enSlugs) (j + 1) (slug c)
            = canonicalOr enSlugs (j + 1) (slug c)"
    by (auto simp: in_set_enumerate_eq intro!: canonicalOr_take)
  then have "map (\<lambda>(j, c). c\<lparr>slug := canonicalOr (take (length cards + 1) enSlugs) (j + 1) (slug c)\<rparr>)
                (enumerate 0 cards)
             = map (\<lambda>(j, c). c\<lparr>slug := canonicalOr enSlugs (j + 1) (slug c)\<rparr>) (enumerate 0 cards)"
    by (intro map_cong) auto
  then have "fst (cardLoop lang (take (length cards + 1) enSlugs) cards 0 out)
             = fst (cardLoop lang enSlugs cards 0 out)"
    by (simp only: cardLoop_cards)
  then show ?thesis
    using cardLoop_written [of lang enSlugs cards out]
      cardLoop_written [of lang "take (length cards + 1) enSlugs" cards out]
    by (simp add: prod_eq_iff)
qed

text \<open>
  Claim C8, as amended. After the loop, the card at position \<open>i\<close> differs from the
  extracted one in its slug only. When \<open>i + 1\<close> is within the canonical list and the
  canonical slug there is not empty, the card has that slug; when the canonical slug there
  is empty, or \<open>i + 1\<close> is beyond the list, the card keeps its own. One file is written
  for each card, under its new slug. The canonical slugs after position
  \<open>length cards\<close> are not used: the loop does the same without them.
\<close>

theorem cardLoop_unifies:
  "i < length cards \<Longrightarrow>
     length (fst (cardLoop lang enSlugs cards 0 out)) = length cards
     \<and> fst (cardLoop lang enSlugs cards 0 out) ! i
         = (cards ! i)\<lparr>slug := slug (fst (cardLoop lang enSlugs cards 0 out) ! i)\<rparr>
     \<and> (i + 1 < length enSlugs \<and> enSlugs ! (i + 1) \<noteq> []
          \<longrightarrow> slug (fst (cardLoop lang enSlugs cards 0 out) ! i) = enSlugs ! (i + 1))
     \<and> (i + 1 < length enSlugs \<and> enSlugs ! (i + 1) = []
          \<longrightarrow> slug (fst (cardLoop lang enSlugs cards 0 out) ! i) = slug (cards ! i))
     \<and> (length enSlugs \<le> i + 1
          \<longrightarrow> slug (fst (cardLoop lang enSlugs cards 0 out) ! i) = slug (cards ! i))
     \<and> snd (cardLoop lang enSlugs cards 0 out)
         = out @ map (writeFile lang) (fst (cardLoop lang enSlugs cards 0 out))
     \<and> cardLoop lang (take (length cards + 1) enSlugs) cards 0 out
         = cardLoop lang enSlugs cards 0 out"
proof (intro conjI impI)
  assume i: "i < length cards"
  show "length (fst (cardLoop lang enSlugs cards 0 out)) = length cards"
    by (simp add: cardLoop_cards)
  show "fst (cardLoop lang enSlugs cards 0 out) ! i
         = (cards ! i)\<lparr>slug := slug (fst (cardLoop lang enSlugs cards 0 out) ! i)\<rparr>"
    using i by (simp add: cardLoop_nth)
  show "snd (cardLoop lang enSlugs cards 0 out)
         = out @ map (writeFile lang) (fst (cardLoop lang enSlugs cards 0 out))"
    by (rule cardLoop_written)
  show "cardLoop lang (take (length cards + 1) enSlugs) cards 0 out
         = cardLoop lang enSlugs cards 0 out"
    by (rule cardLoop_take)
  {
    assume "i + 1 < length enSlugs \<and> enSlugs ! (i + 1) \<noteq> []"
    then show "slug (fst (cardLoop lang enSlugs cards 0 out) ! i) = enSlugs ! (i + 1)"
      using i by (simp add: cardLoop_nth canonicalOr_def nthOpt_def)
  }
  {
    assume "i + 1 < length enSlugs \<and> enSlugs ! (i + 1) = []"
    then show "slug (fst (cardLoop lang enSlugs cards 0 out) ! i) = slug (cards ! i)"
      using i by (simp add: cardLoop_nth canonicalOr_def nthOpt_def)
  }
  {
    assume "length enSlugs \<le> i + 1"
    then show "slug (fst (cardLoop lang enSlugs cards 0 out) ! i) = slug (cards ! i)"
      using i by (simp add: cardLoop_nth canonicalOr_def nthOpt_def)
  }
qed

text \<open>
  Three cards against the canonical list of a featured post and two cards, the second
  with an empty slug.
\<close>

theorem cardLoop_unifies_witness:
  "slug (fst (cardLoop Fr [js ''first'', js ''second'', []]
                [sampleCard (js ''premier''), sampleCard (js ''deuxieme''), sampleCard (js ''troisieme'')] 0 []) ! 0)
     = js ''second''
   \<and> slug (fst (cardLoop Fr [js ''first'', js ''second'', []]
                [sampleCard (js ''premier''), sampleCard (js ''deuxieme''), sampleCard (js ''troisieme'')] 0 []) ! 1)
     = js ''deuxieme''
   \<and> slug (fst (cardLoop Fr [js ''first'', js ''second'', []]
                [sampleCard (js ''premier''), sampleCard (js ''deuxieme''), sampleCard (js ''troisieme'')] 0 []) ! 2)
     = js ''troisieme''"
proof -
  let ?en = "[js ''first'', js ''second'', []]"
  let ?cards = "[sampleCard (js ''premier''), sampleCard (js ''deuxieme''), sampleCard (js ''troisieme'')]"
  have 0: "slug (fst (cardLoop Fr ?en ?cards 0 []) ! 0) = js ''second''"
    using cardLoop_unifies [of 0 ?cards Fr ?en "[]"] by (simp add: js_def)
  have 1: "slug (fst (cardLoop Fr ?en ?cards 0 []) ! 1) = js ''deuxieme''"
    using cardLoop_unifies [of 1 ?cards Fr ?en "[]"] by (simp add: sampleCard_def)
  have 2: "slug (fst (cardLoop Fr ?en ?cards 0 []) ! 2) = js ''troisieme''"
    using cardLoop_unifies [of 2 ?cards Fr ?en "[]"] by (simp add: sampleCard_def)
  from 0 1 2 show ?thesis by blast
qed

text \<open>
  Claim C8 as stated fails where the canonical slug is the empty string, which is the
  slug of an English card without a title: the position is within the list, and the card
  keeps its own slug.
\<close>

theorem cardLoop_empty_canonical_counterexample:
  \<open>slug (parsePost (js ''<div class="blog-card reveal rd1" data-cat="team"></div>'') En False) = []
   \<and> 0 + 1 < length [js ''first'', []]
   \<and> slug (fst (cardLoop Fr [js ''first'', []] [sampleCard (js ''premier'')] 0 []) ! 0) = js ''premier''
   \<and> slug (fst (cardLoop Fr [js ''first'', []] [sampleCard (js ''premier'')] 0 []) ! 0)
       \<noteq> [js ''first'', []] ! (0 + 1)\<close>
  by code_simp

section \<open>Properties of the build script\<close>

subsection \<open>Escaping\<close>

lemma replaceAll_one: "replaceAll [a] rep s = concat (map (\<lambda>c. if c = a then rep else [c]) s)"
  by (induction s) auto

lemma escapeHtml_units: "escapeHtml s = concat (map escapeUnit s)"
proof (induction s)
  case Nil
  then show ?case by (simp add: escapeHtml_def)
next
  case (Cons c s)
  have "escapeHtml (c # s) = escapeHtml [c] @ escapeHtml s"
    by (simp add: escapeHtml_def replaceAll_one)
  moreover have "escapeHtml [c] = escapeUnit c"
    by (simp add: escapeHtml_def replaceAll_one escapeUnit_def js_def quote_def)
  ultimately show ?case using Cons by simp
qed

subsection \<open>The order of the blocks\<close>

lemma js_append: "js (a @ b) = js a @ js b"
  by (simp add: js_def)

text \<open>
  Claim C1, as amended. The fragment of the featured post is its comment, its opening
  tag, two blocks and its closing tag: the body block and then the image block for
  Hebrew, the image block and then the body block for English and French. The fragment
  of a card has the image block before the body block in every language. Each block
  starts with the opening tag of its element.
\<close>

theorem render_order:
  \<open>generateFeaturedPost formatDate post lang =
     joinWith nl
       [js ''    <!-- Featured Post -->'',
        js ''    <div class="featured-post reveal" data-cat="'' @ category post @ js ''">'',
        if lang = He then featuredBodyBlock formatDate post lang else featuredImgBlock post,
        if lang = He then featuredImgBlock post else featuredBodyBlock formatDate post lang,
        js ''    </div>'']
   \<and> generateBlogCard formatDate post index lang =
     joinWith nl
       [js ''      <!-- Post '' @ showNat (index + 1) @ js '' -->'',
        js ''      <div class="blog-card reveal rd'' @ showNat (index mod 6 + 1)
          @ js ''" data-cat="'' @ category post @ js ''">'',
        cardImgBlock post index lang,
        cardBodyBlock formatDate post lang,
        js ''      </div>'']
   \<and> startsWith (js ''      <div class="featured-img">'') (featuredImgBlock post)
   \<and> startsWith (js ''      <div class="featured-body">'') (featuredBodyBlock formatDate post lang)
   \<and> startsWith (js ''        <div class="blog-card-img">'') (cardImgBlock post index lang)
   \<and> startsWith (js ''        <div class="blog-card-body">'') (cardBodyBlock formatDate post lang)\<close>
proof (intro conjI)
  show \<open>generateFeaturedPost formatDate post lang =
     joinWith nl
       [js ''    <!-- Featured Post -->'',
        js ''    <div class="featured-post reveal" data-cat="'' @ category post @ js ''">'',
        if lang = He then featuredBodyBlock formatDate post lang else featuredImgBlock post,
        if lang = He then featuredImgBlock post else featuredBodyBlock formatDate post lang,
        js ''    </div>'']\<close>
    by (simp add: generateFeaturedPost_def Let_def)
  show \<open>generateBlogCard formatDate post index lang =
     joinWith nl
       [js ''      <!-- Post '' @ showNat (index + 1) @ js '' -->'',
        js ''      <div class="blog-card reveal rd'' @ showNat (index mod 6 + 1)
          @ js ''" data-cat="'' @ category post @ js ''">'',
        cardImgBlock post index lang,
        cardBodyBlock formatDate post lang,
        js ''      </div>'']\<close>
    by (simp add: generateBlogCard_def cardImgBlock_def cardBodyBlock_def cardImgSrc_def Let_def
        js_append [symmetric])
  show \<open>startsWith (js ''      <div class="featured-img">'') (featuredImgBlock post)\<close>
    by (simp add: featuredImgBlock_def Let_def js_def)
  show \<open>startsWith (js ''      <div class="featured-body">'') (featuredBodyBlock formatDate post lang)\<close>
    by (simp add: featuredBodyBlock_def Let_def js_def)
  show \<open>startsWith (js ''        <div class="blog-card-img">'') (cardImgBlock post index lang)\<close>
    by (simp add: cardImgBlock_def js_def)
  show \<open>startsWith (js ''        <div class="blog-card-body">'') (cardBodyBlock formatDate post lang)\<close>
    by (simp add: cardBodyBlock_def js_def)
qed

text \<open>
  Claim C1 as stated fails for the cards: in the Hebrew fragment of a card the image
  block starts at offset 87 and the body block at offset 399.
\<close>

theorem card_order_counterexample:
  \<open>indexOf (generateBlogCard (\<lambda>d l opts. d) (sampleCard (js ''slug'')) 0 He)
       (js ''<div class="blog-card-img">'') = Some 87
   \<and> indexOf (generateBlogCard (\<lambda>d l opts. d) (sampleCard (js ''slug'')) 0 He)
       (js ''<div class="blog-card-body">'') = Some 399\<close>
  by code_simp

subsection \<open>What the fragments contain\<close>

lemma sublist_mid: "sublist m (a @ m @ b)"
  by (auto simp: sublist_def)

lemma sublist_trans: "sublist a b \<Longrightarrow> sublist b c \<Longrightarrow> sublist a c"
  unfolding sublist_def by (metis append.assoc)

lemma sublist_in_joined: "x \<in> set xs \<Longrightarrow> sublist x (joinWith sep xs)"
proof (induction sep xs rule: joinWith.induct)
  case (1 sep)
  then show ?case by simp
next
  case (2 sep x')
  then show ?case by simp
next
  case (3 sep x' y ys)
  show ?case
  proof (cases "x = x'")
    case True
    then show ?thesis using sublist_mid [of x "[]"] by simp
  next
    case False
    with 3 have "sublist x (joinWith sep (y # ys))" by simp
    moreover have "sublist (joinWith sep (y # ys)) ((x' @ sep) @ joinWith sep (y # ys) @ [])"
      by (rule sublist_mid)
    ultimately show ?thesis by (auto intro: sublist_trans)
  qed
qed

lemma featured_has_blocks:
  "sublist (featuredImgBlock post) (generateFeaturedPost formatDate post lang)"
  "sublist (featuredBodyBlock formatDate post lang) (generateFeaturedPost formatDate post lang)"
proof -
  let ?img = "featuredImgBlock post"
  let ?body = "featuredBodyBlock formatDate post lang"
  let ?inner = "if lang = He then ?body @ nl @ ?img else ?img @ nl @ ?body"
  have "sublist ?inner (generateFeaturedPost formatDate post lang)"
    unfolding generateFeaturedPost_def Let_def by (rule sublist_in_joined) simp
  moreover have "sublist ?img ?inner"
    using sublist_mid [of ?img "?body @ nl" "[]"] sublist_mid [of ?img "[]" "nl @ ?body"]
    by (cases "lang = He") simp_all
  moreover have "sublist ?body ?inner"
    using sublist_mid [of ?body "?img @ nl" "[]"] sublist_mid [of ?body "[]" "nl @ ?img"]
    by (cases "lang = He") simp_all
  ultimately show "sublist ?img (generateFeaturedPost formatDate post lang)"
    and "sublist ?body (generateFeaturedPost formatDate post lang)"
    by (blast intro: sublist_trans)+
qed

lemma featuredImg_tag:
  \<open>sublist (js ''<img src="'' @ featuredImgSrc post @ js ''" alt="''
       @ escapeHtml (if image_alt post = [] then title post else image_alt post) @ js ''"/>'')
     (featuredImgBlock post)\<close>
proof -
  let ?tag = \<open>js ''<img src="'' @ featuredImgSrc post @ js ''" alt="''
       @ escapeHtml (if image_alt post = [] then title post else image_alt post) @ js ''"/>''\<close>
  have \<open>js ''        <img src="'' = js ''        '' @ js ''<img src="''\<close> by (simp add: js_def)
  then have "sublist (js ''        '' @ ?tag @ []) (featuredImgBlock post)"
    unfolding featuredImgBlock_def featuredImgSrc_def Let_def by (intro sublist_in_joined) simp
  moreover have "sublist ?tag (js ''        '' @ ?tag @ [])" by (rule sublist_mid)
  ultimately show ?thesis by (rule sublist_trans [rotated])
qed

lemma featuredBody_tags:
  \<open>sublist (js ''<h2 class="featured-title"><a href="#">'' @ escapeHtml (title post) @ js ''</a></h2>'')
     (featuredBodyBlock formatDate post lang)\<close>
  \<open>sublist (js ''<p class="featured-excerpt">'' @ escapeHtml (excerpt post) @ js ''</p>'')
     (featuredBodyBlock formatDate post lang)\<close>
proof -
  let ?t = \<open>js ''<h2 class="featured-title"><a href="#">'' @ escapeHtml (title post) @ js ''</a></h2>''\<close>
  let ?e = \<open>js ''<p class="featured-excerpt">'' @ escapeHtml (excerpt post) @ js ''</p>''\<close>
  have \<open>js ''        <h2 class="featured-title"><a href="#">''
          = js ''        '' @ js ''<h2 class="featured-title"><a href="#">''\<close>
    and \<open>js ''        <p class="featured-excerpt">'' = js ''        '' @ js ''<p class="featured-excerpt">''\<close>
    by (simp_all add: js_def)
  then have "sublist (js ''        '' @ ?t @ []) (featuredBodyBlock formatDate post lang)"
    and "sublist (js ''        '' @ ?e @ []) (featuredBodyBlock formatDate post lang)"
    unfolding featuredBodyBlock_def Let_def by (intro sublist_in_joined; simp)+
  moreover have "sublist ?t (js ''        '' @ ?t @ [])" and "sublist ?e (js ''        '' @ ?e @ [])"
    by (rule sublist_mid)+
  ultimately show "sublist ?t (featuredBodyBlock formatDate post lang)"
    and "sublist ?e (featuredBodyBlock formatDate post lang)"
    by (blast intro: sublist_trans)+
qed

lemma card_tags:
  \<open>sublist (js ''<img src="'' @ cardImgSrc post index @ js ''" alt="''
       @ escapeHtml (if image_alt post = [] then title post else image_alt post) @ js ''"/>'')
     (generateBlogCard formatDate post index lang)\<close>
  \<open>sublist (js ''<h3 class="blog-card-title"><a href="#">'' @ escapeHtml (title post) @ js ''</a></h3>'')
     (generateBlogCard formatDate post index lang)\<close>
  \<open>sublist (js ''<p class="blog-card-excerpt">'' @ escapeHtml (excerpt post) @ js ''</p>'')
     (generateBlogCard formatDate post index lang)\<close>
proof -
  let ?i = \<open>js ''<img src="'' @ cardImgSrc post index @ js ''" alt="''
       @ escapeHtml (if image_alt post = [] then title post else image_alt post) @ js ''"/>''\<close>
  let ?t = \<open>js ''<h3 class="blog-card-title"><a href="#">'' @ escapeHtml (title post) @ js ''</a></h3>''\<close>
  let ?e = \<open>js ''<p class="blog-card-excerpt">'' @ escapeHtml (excerpt post) @ js ''</p>''\<close>
  let ?card = "generateBlogCard formatDate post index lang"
  have \<open>js ''          <img src="'' = js ''          '' @ js ''<img src="''\<close>
    and \<open>js ''          <h3 class="blog-card-title"><a href="#">''
          = js ''          '' @ js ''<h3 class="blog-card-title"><a href="#">''\<close>
    and \<open>js ''          <p class="blog-card-excerpt">'' = js ''          '' @ js ''<p class="blog-card-excerpt">''\<close>
    by (simp_all add: js_def)
  then have "sublist (js ''          '' @ ?i @ []) ?card"
    and "sublist (js ''          '' @ ?t @ []) ?card"
    and "sublist (js ''          '' @ ?e @ []) ?card"
    unfolding generateBlogCard_def cardImgSrc_def Let_def by (intro sublist_in_joined; simp)+
  moreover have "sublist ?i (js ''          '' @ ?i @ [])" and "sublist ?t (js ''          '' @ ?t @ [])"
    and "sublist ?e (js ''          '' @ ?e @ [])"
    by (rule sublist_mid)+
  ultimately show "sublist ?i ?card" and "sublist ?t ?card" and "sublist ?e ?card"
    by (blast intro: sublist_trans)+
qed

text \<open>
  Claim C9. Both fragments contain the \<^verbatim>\<open>img\<close> tag with the source of the image as
  it is, followed by the escaped alternative text; the source is the image field of the
  post when that is not empty, and the placeholder address otherwise. The title and the
  excerpt are in the fragments in their escaped form, and escaping replaces each of the
  four characters by its reference, one character at a time.
\<close>

theorem image_src_verbatim:
  \<open>sublist (js ''<img src="'' @ featuredImgSrc post @ js ''" alt="''
       @ escapeHtml (if image_alt post = [] then title post else image_alt post) @ js ''"/>'')
     (generateFeaturedPost formatDate post lang)
   \<and> sublist (js ''<img src="'' @ cardImgSrc post index @ js ''" alt="''
       @ escapeHtml (if image_alt post = [] then title post else image_alt post) @ js ''"/>'')
     (generateBlogCard formatDate post index lang)
   \<and> (image_url post \<noteq> [] \<longrightarrow>
         featuredImgSrc post = image_url post \<and> cardImgSrc post index = image_url post)
   \<and> sublist (js ''<h2 class="featured-title"><a href="#">'' @ escapeHtml (title post) @ js ''</a></h2>'')
     (generateFeaturedPost formatDate post lang)
   \<and> sublist (js ''<p class="featured-excerpt">'' @ escapeHtml (excerpt post) @ js ''</p>'')
     (generateFeaturedPost formatDate post lang)
   \<and> sublist (js ''<h3 class="blog-card-title"><a href="#">'' @ escapeHtml (title post) @ js ''</a></h3>'')
     (generateBlogCard formatDate post index lang)
   \<and> sublist (js ''<p class="blog-card-excerpt">'' @ escapeHtml (excerpt post) @ js ''</p>'')
     (generateBlogCard formatDate post index lang)
   \<and> escapeHtml str = concat (map escapeUnit str)\<close>
proof (intro conjI impI)
  show \<open>sublist (js ''<img src="'' @ featuredImgSrc post @ js ''" alt="''
       @ escapeHtml (if image_alt post = [] then title post else image_alt post) @ js ''"/>'')
     (generateFeaturedPost formatDate post lang)\<close>
    by (rule sublist_trans [OF featuredImg_tag featured_has_blocks(1)])
  show \<open>sublist (js ''<h2 class="featured-title"><a href="#">'' @ escapeHtml (title post) @ js ''</a></h2>'')
     (generateFeaturedPost formatDate post lang)\<close>
    by (rule sublist_trans [OF featuredBody_tags(1) featured_has_blocks(2)])
  show \<open>sublist (js ''<p class="featured-excerpt">'' @ escapeHtml (excerpt post) @ js ''</p>'')
     (generateFeaturedPost formatDate post lang)\<close>
    by (rule sublist_trans [OF featuredBody_tags(2) featured_has_blocks(2)])
  show \<open>sublist (js ''<img src="'' @ cardImgSrc post index @ js ''" alt="''
       @ escapeHtml (if image_alt post = [] then title post else image_alt post) @ js ''"/>'')
     (generateBlogCard formatDate post index lang)\<close>
    by (rule card_tags)
  show \<open>sublist (js ''<h3 class="blog-card-title"><a href="#">'' @ escapeHtml (title post) @ js ''</a></h3>'')
     (generateBlogCard formatDate post index lang)\<close>
    by (rule card_tags)
  show \<open>sublist (js ''<p class="blog-card-excerpt">'' @ escapeHtml (excerpt post) @ js ''</p>'')
     (generateBlogCard formatDate post index lang)\<close>
    by (rule card_tags)
  show "escapeHtml str = concat (map escapeUnit str)" by (rule escapeHtml_units)
  assume "image_url post \<noteq> []"
  then show "featuredImgSrc post = image_url post" and "cardImgSrc post index = image_url post"
    by (simp_all add: featuredImgSrc_def cardImgSrc_def)
qed

text \<open>
  A post whose image address has an ampersand: the address is the source as it is,
  while escaping would have changed it.
\<close>

theorem image_src_verbatim_witness:
  "image_url ((sampleCard (js ''s''))\<lparr>image_url := js ''a.png?x=1&y=2''\<rparr>) \<noteq> []
   \<and> featuredImgSrc ((sampleCard (js ''s''))\<lparr>image_url := js ''a.png?x=1&y=2''\<rparr>) = js ''a.png?x=1&y=2''
   \<and> cardImgSrc ((sampleCard (js ''s''))\<lparr>image_url := js ''a.png?x=1&y=2''\<rparr>) 0 = js ''a.png?x=1&y=2''
   \<and> escapeHtml (js ''a.png?x=1&y=2'') = js ''a.png?x=1&amp;y=2''"
proof -
  let ?p = "(sampleCard (js ''s''))\<lparr>image_url := js ''a.png?x=1&y=2''\<rparr>"
  have n: "image_url ?p \<noteq> []" by (simp add: js_def)
  have u: "image_url ?p = js ''a.png?x=1&y=2''" by simp
  have e: "escapeHtml (js ''a.png?x=1&y=2'') = js ''a.png?x=1&amp;y=2''" by code_simp
  from image_src_verbatim [where post = ?p and index = 0] n
  have "featuredImgSrc ?p = image_url ?p \<and> cardImgSrc ?p 0 = image_url ?p" by blast
  with n u e show ?thesis by simp
qed

subsection \<open>Sorting and the featured post\<close>

lemma insertBy_insort:
  "newDate (date x) \<noteq> None \<Longrightarrow> \<forall>p\<in>set ys. newDate (date p) \<noteq> None
     \<Longrightarrow> insertBy (compareDates newDate) x ys = insort_key (\<lambda>p. - the (newDate (date p))) x ys"
  by (induction ys) (auto simp: compareDates_def)

lemma sortBy_sort_key:
  "\<forall>p\<in>set xs. newDate (date p) \<noteq> None
     \<Longrightarrow> sortBy (compareDates newDate) xs = sort_key (\<lambda>p. - the (newDate (date p))) xs"
proof (induction xs)
  case Nil
  then show ?case by (simp add: sortBy_def)
next
  case (Cons x xs)
  then have "sortBy (compareDates newDate) xs = sort_key (\<lambda>p. - the (newDate (date p))) xs"
    by simp
  moreover have "\<forall>p\<in>set (sort_key (\<lambda>p. - the (newDate (date p))) xs). newDate (date p) \<noteq> None"
    using Cons.prems by simp
  ultimately show ?case
    using Cons.prems insertBy_insort [of newDate x "sort_key (\<lambda>p. - the (newDate (date p))) xs"]
    by (simp add: sortBy_def sort_key_def)
qed

lemma compareDates_valid:
  "newDate (date a) \<noteq> None \<Longrightarrow> newDate (date b) \<noteq> None
     \<Longrightarrow> compareDates newDate a b = the (newDate (date b)) - the (newDate (date a))"
  by (auto simp: compareDates_def)

lemma findIndex_Some:
  "findIndex P xs = Some i \<Longrightarrow> i < length xs \<and> P (xs ! i) \<and> (\<forall>j<i. \<not> P (xs ! j))"
proof (induction xs arbitrary: i)
  case Nil
  then show ?case by simp
next
  case (Cons x xs)
  show ?case
  proof (cases "P x")
    case True
    with Cons.prems show ?thesis by simp
  next
    case False
    with Cons.prems obtain k where k: "findIndex P xs = Some k" "i = Suc k" by auto
    with Cons.IH [of k] False show ?thesis by (auto simp: nth_Cons split: nat.splits)
  qed
qed

lemma findIndex_None: "(findIndex P xs = None) = (\<forall>x\<in>set xs. \<not> P x)"
  by (induction xs) auto

lemma filter_index:
  "n \<le> k \<Longrightarrow> map snd (filter (\<lambda>(i, p). i \<noteq> k) (enumerate n xs))
     = take (k - n) xs @ drop (Suc (k - n)) xs"
proof (induction xs arbitrary: n)
  case Nil
  then show ?case by simp
next
  case (Cons x xs)
  show ?case
  proof (cases "n = k")
    case True
    have "filter (\<lambda>(i, p). i \<noteq> k) (enumerate (Suc k) xs) = enumerate (Suc k) xs"
      by (auto simp: filter_id_conv in_set_enumerate_eq)
    with True show ?thesis by simp
  next
    case False
    with Cons.prems have le: "Suc n \<le> k" by simp
    then obtain m where m: "k - n = Suc m" "k - Suc n = m" by (cases "k - n") auto
    from Cons.IH [OF le] False m show ?thesis by simp
  qed
qed

lemma cardsOf_split:
  "cardsOf posts = take (featuredIdx posts) posts @ drop (Suc (featuredIdx posts)) posts"
  using filter_index [of 0 "featuredIdx posts" posts] by (simp add: cardsOf_def)

lemma mset_insertBy: "mset (insertBy cmp x ys) = add_mset x (mset ys)"
  by (induction ys) auto

lemma mset_sortBy: "mset (sortBy cmp xs) = mset xs"
  by (induction xs) (auto simp: sortBy_def mset_insertBy)

text \<open>
  Claim C5. For a partition that is not empty, the sorted list is a permutation of the
  posts read, and the featured index is within it. When a post is flagged, the post at
  the featured index is flagged and no post before it is; when none is flagged, the
  featured index is 0. The cards are the sorted list without the post at the featured
  index, in the order of the sorted list. When all the dates are valid, the sorted list
  is in descending order of date, posts of the same date are in the order they were read,
  and the first post is at least as new as any other.
\<close>

theorem featured_selection:
  assumes "loaded \<noteq> []"
  shows "mset (sortBy (compareDates newDate) loaded) = mset loaded
    \<and> nthOpt (sortBy (compareDates newDate) loaded) (featuredIdx (sortBy (compareDates newDate) loaded))
        = Some (sortBy (compareDates newDate) loaded ! featuredIdx (sortBy (compareDates newDate) loaded))
    \<and> ((\<exists>p\<in>set loaded. featured p) \<longrightarrow>
          featured (sortBy (compareDates newDate) loaded ! featuredIdx (sortBy (compareDates newDate) loaded))
          \<and> (\<forall>j<featuredIdx (sortBy (compareDates newDate) loaded).
                \<not> featured (sortBy (compareDates newDate) loaded ! j)))
    \<and> ((\<forall>p\<in>set loaded. \<not> featured p) \<longrightarrow>
          featuredIdx (sortBy (compareDates newDate) loaded) = 0)
    \<and> cardsOf (sortBy (compareDates newDate) loaded)
        = take (featuredIdx (sortBy (compareDates newDate) loaded)) (sortBy (compareDates newDate) loaded)
          @ drop (Suc (featuredIdx (sortBy (compareDates newDate) loaded)))
              (sortBy (compareDates newDate) loaded)
    \<and> ((\<forall>p\<in>set loaded. newDate (date p) \<noteq> None) \<longrightarrow>
          sorted_wrt (\<lambda>a b. compareDates newDate a b \<le> 0) (sortBy (compareDates newDate) loaded)
          \<and> (\<forall>t. filter (\<lambda>p. newDate (date p) = Some t) (sortBy (compareDates newDate) loaded)
                  = filter (\<lambda>p. newDate (date p) = Some t) loaded)
          \<and> (\<forall>p\<in>set loaded. compareDates newDate (sortBy (compareDates newDate) loaded ! 0) p \<le> 0))"
proof -
  define posts where "posts = sortBy (compareDates newDate) loaded"
  have m: "mset posts = mset loaded" by (simp add: posts_def mset_sortBy)
  then have s: "set posts = set loaded" by (metis set_mset_mset)
  have ne: "posts \<noteq> []" using m assms by auto
  have idx: "featuredIdx posts < length posts"
    using ne findIndex_Some [of featured posts]
    by (cases "findIndex featured posts") (auto simp: featuredIdx_def)
  then have nth: "nthOpt posts (featuredIdx posts) = Some (posts ! featuredIdx posts)"
    by (simp add: nthOpt_def)
  have flagged: "featured (posts ! featuredIdx posts) \<and> (\<forall>j<featuredIdx posts. \<not> featured (posts ! j))"
    if "\<exists>p\<in>set loaded. featured p"
  proof -
    from that s have "findIndex featured posts \<noteq> None" by (simp add: findIndex_None)
    then obtain i where "findIndex featured posts = Some i" by auto
    then show ?thesis using findIndex_Some [of featured posts i] by (simp add: featuredIdx_def)
  qed
  have unflagged: "featuredIdx posts = 0" if "\<forall>p\<in>set loaded. \<not> featured p"
  proof -
    from that s have "findIndex featured posts = None" by (simp add: findIndex_None)
    then show "featuredIdx posts = 0" by (simp add: featuredIdx_def)
  qed
  have dated: "sorted_wrt (\<lambda>a b. compareDates newDate a b \<le> 0) posts
      \<and> (\<forall>t. filter (\<lambda>p. newDate (date p) = Some t) posts
               = filter (\<lambda>p. newDate (date p) = Some t) loaded)
      \<and> (\<forall>p\<in>set loaded. compareDates newDate (posts ! 0) p \<le> 0)"
    if v: "\<forall>p\<in>set loaded. newDate (date p) \<noteq> None"
  proof (intro conjI allI)
    define key where "key = (\<lambda>p :: 'a post. - the (newDate (date p)))"
    have sk: "posts = sort_key key loaded"
      unfolding posts_def key_def using v by (rule sortBy_sort_key)
    have valid: "\<forall>p\<in>set posts. newDate (date p) \<noteq> None" using v s by simp
    have cmp: "compareDates newDate a b \<le> 0 \<longleftrightarrow> key a \<le> key b"
      if "a \<in> set posts" "b \<in> set posts" for a b
      using that valid by (simp add: compareDates_valid key_def)
    have "sorted (map key posts)" by (simp add: sk)
    then have "sorted_wrt (\<lambda>a b. key a \<le> key b) posts" by (simp add: sorted_map)
    then show srt: "sorted_wrt (\<lambda>a b. compareDates newDate a b \<le> 0) posts"
      by (rule sorted_wrt_mono_rel [rotated]) (simp add: cmp)
    show "filter (\<lambda>p. newDate (date p) = Some t) posts
            = filter (\<lambda>p. newDate (date p) = Some t) loaded" for t
    proof -
      have "filter (\<lambda>p. key p = - t) (sort_key key loaded) = filter (\<lambda>p. key p = - t) loaded"
        by (rule sort_key_stable)
      moreover have "filter (\<lambda>p. key p = - t) posts = filter (\<lambda>p. newDate (date p) = Some t) posts"
        using valid by (intro filter_cong) (auto simp: key_def)
      moreover have "filter (\<lambda>p. key p = - t) loaded = filter (\<lambda>p. newDate (date p) = Some t) loaded"
        using v by (intro filter_cong) (auto simp: key_def)
      ultimately show ?thesis by (simp add: sk)
    qed
    show "\<forall>p\<in>set loaded. compareDates newDate (posts ! 0) p \<le> 0"
    proof
      fix p assume "p \<in> set loaded"
      with s have p: "p \<in> set posts" by simp
      obtain x xs where x: "posts = x # xs" using ne by (cases posts) auto
      with srt have "\<forall>y\<in>set xs. compareDates newDate x y \<le> 0" by simp
      moreover have "compareDates newDate x x \<le> 0" using valid x by (simp add: compareDates_valid)
      ultimately show "compareDates newDate (posts ! 0) p \<le> 0" using p x by auto
    qed
  qed
  from m nth flagged unflagged dated cardsOf_split [of posts]
  show ?thesis unfolding posts_def by blast
qed

text \<open>
  Three posts, two of one date and two flagged; and two posts, none flagged.
\<close>

theorem featured_selection_witness:
  "map slug (sortBy (compareDates Some)
       [samplePost (js ''a'') 3 False, samplePost (js ''b'') 1 True, samplePost (js ''c'') 3 True])
     = [js ''a'', js ''c'', js ''b'']
   \<and> featuredIdx (sortBy (compareDates Some)
       [samplePost (js ''a'') 3 False, samplePost (js ''b'') 1 True, samplePost (js ''c'') 3 True]) = 1
   \<and> featured (sortBy (compareDates Some)
       [samplePost (js ''a'') 3 False, samplePost (js ''b'') 1 True, samplePost (js ''c'') 3 True] ! 1)
   \<and> map slug (cardsOf (sortBy (compareDates Some)
       [samplePost (js ''a'') 3 False, samplePost (js ''b'') 1 True, samplePost (js ''c'') 3 True]))
     = [js ''a'', js ''b'']
   \<and> featuredIdx (sortBy (compareDates Some)
       [samplePost (js ''d'') 1 False, samplePost (js ''e'') 3 False]) = 0
   \<and> map slug (sortBy (compareDates Some)
       [samplePost (js ''d'') 1 False, samplePost (js ''e'') 3 False]) = [js ''e'', js ''d'']
   \<and> compareDates Some
         (sortBy (compareDates Some) [samplePost (js ''d'') 1 False, samplePost (js ''e'') 3 False] ! 0)
         (samplePost (js ''d'') 1 False) \<le> 0"
proof -
  let ?L = "[samplePost (js ''a'') 3 False, samplePost (js ''b'') 1 True, samplePost (js ''c'') 3 True]"
  let ?M = "[samplePost (js ''d'') 1 False, samplePost (js ''e'') 3 False]"
  have nL: "?L \<noteq> []" and nM: "?M \<noteq> []" by simp_all
  have vM: "\<forall>p\<in>set ?M. Some (date p) \<noteq> None" by simp
  have fL: "\<exists>p\<in>set ?L. featured p" by (simp add: samplePost_def)
  have fM: "\<forall>p\<in>set ?M. \<not> featured p" by (simp add: samplePost_def)
  have i: "featuredIdx (sortBy (compareDates Some) ?L) = 1" by code_simp
  have o: "map slug (sortBy (compareDates Some) ?L) = [js ''a'', js ''c'', js ''b'']" by code_simp
  have c: "map slug (cardsOf (sortBy (compareDates Some) ?L)) = [js ''a'', js ''b'']" by code_simp
  have o': "map slug (sortBy (compareDates Some) ?M) = [js ''e'', js ''d'']" by code_simp
  from featured_selection [of ?L Some, OF nL] fL
  have "featured (sortBy (compareDates Some) ?L ! featuredIdx (sortBy (compareDates Some) ?L))"
    by blast
  with i have 1: "featured (sortBy (compareDates Some) ?L ! 1)" by simp
  from featured_selection [of ?M Some, OF nM] fM
  have 2: "featuredIdx (sortBy (compareDates Some) ?M) = 0" by blast
  from featured_selection [of ?M Some, OF nM] vM
  have "\<forall>p\<in>set ?M. compareDates Some (sortBy (compareDates Some) ?M ! 0) p \<le> 0" by blast
  then have 3: "compareDates Some (sortBy (compareDates Some) ?M ! 0) (samplePost (js ''d'') 1 False) \<le> 0"
    by simp
  from 1 2 3 i o c o' show ?thesis by blast
qed

end
